theory Spec2Isabelle
  imports Complex_Main "HOL-Library.Multiset" "HOL-Library.Sublist" "HOL-Library.Log_Nat"
begin

section \<open>Python strings\<close>

text \<open>
  A Python \<open>str\<close> is a sequence of Unicode code points, so the model keeps a string as
  the list of its code points. \<open>u\<close> reads an ASCII literal as such a string.
\<close>

type_synonym pystr = "nat list"

definition u :: "string \<Rightarrow> pystr" where
  "u s = map of_char s"

definition comma :: nat where
  "comma = 44"

text \<open>
  \<open>str.isspace\<close> on one code point: the characters \<open>str.strip()\<close> removes when it is
  called without an argument (CPython's \<open>_PyUnicode_IsWhitespace\<close>).
\<close>

definition isspace :: "nat \<Rightarrow> bool" where
  "isspace c \<longleftrightarrow>
     (9 \<le> c \<and> c \<le> 13) \<or> (28 \<le> c \<and> c \<le> 32) \<or> c = 133 \<or> c = 160 \<or> c = 5760 \<or>
     (8192 \<le> c \<and> c \<le> 8202) \<or> c = 8232 \<or> c = 8233 \<or> c = 8239 \<or> c = 8287 \<or> c = 12288"

text \<open>\<open>s.strip()\<close>: the whitespace at both ends is dropped.\<close>

definition py_strip :: "pystr \<Rightarrow> pystr" where
  "py_strip s = rev (dropWhile isspace (rev (dropWhile isspace s)))"

text \<open>
  \<open>s.split(sep)\<close> for a one-character separator: the pieces between the separators, in
  order; the empty string gives one empty piece, and \<open>n\<close> separators give \<open>n + 1\<close> pieces.
\<close>

fun py_split :: "nat \<Rightarrow> pystr \<Rightarrow> pystr list" where
  "py_split sep [] = [[]]"
| "py_split sep (c # cs) =
     (if c = sep then [] # py_split sep cs
      else (case py_split sep cs of
              [] \<Rightarrow> [[c]]
            | piece # pieces \<Rightarrow> (c # piece) # pieces))"

text \<open>\<open>sep.join(pieces)\<close>, the inverse of \<open>py_split\<close>.\<close>

fun py_join :: "nat \<Rightarrow> pystr list \<Rightarrow> pystr" where
  "py_join sep [] = []"
| "py_join sep [p] = p"
| "py_join sep (p # q # ps) = p @ sep # py_join sep (q # ps)"

text \<open>\<open>str(n)\<close> for a Python \<open>int\<close>: its decimal digits, with a minus sign when negative.\<close>

fun str_nat :: "nat \<Rightarrow> pystr" where
  "str_nat n = (if n < 10 then [48 + n] else str_nat (n div 10) @ [48 + n mod 10])"

definition str_int :: "int \<Rightarrow> pystr" where
  "str_int i = (if i < 0 then 45 # str_nat (nat (- i)) else str_nat (nat i))"

section \<open>Exceptions\<close>

text \<open>
  The exceptions the program can meet, each with the message \<open>str(e)\<close> shows.
  \<open>APIError\<close> stands for whatever the language-model client raises (all of its errors
  derive from \<open>Exception\<close>).
\<close>

datatype exn =
    ValueError pystr
  | AttributeError pystr
  | ZeroDivisionError pystr
  | OverflowError pystr
  | APIError pystr

fun str_exn :: "exn \<Rightarrow> pystr" where
  "str_exn (ValueError m) = m"
| "str_exn (AttributeError m) = m"
| "str_exn (ZeroDivisionError m) = m"
| "str_exn (OverflowError m) = m"
| "str_exn (APIError m) = m"

section \<open>parse_supplement_list\<close>

text \<open>
  \<open>response.content\<close> as the function inspects it. An element of a list is one of three
  kinds: a \<open>TextBlock\<close> has a \<open>text\<close> attribute that is a \<open>str\<close> (as the blocks of the client
  library have); a \<open>NonStrText\<close> has a \<open>text\<close> attribute that is not a string and has no
  \<open>split\<close> method (\<open>None\<close>, a number, ...), kept by the name of the attribute's type; an
  \<open>OtherBlock\<close> has no \<open>text\<close> attribute and is kept by what \<open>str()\<close> makes of it.
  \<open>ContentOther\<close> is a value that is neither a list nor a string (\<open>None\<close>, a number, ...),
  kept by the name of its type.
\<close>

datatype content_block = TextBlock pystr | NonStrText pystr | OtherBlock pystr

datatype response_content =
    ContentList "content_block list"
  | ContentStr pystr
  | ContentOther pystr

fun type_name :: "response_content \<Rightarrow> pystr" where
  "type_name (ContentList bs) = u ''list''"
| "type_name (ContentStr s) = u ''str''"
| "type_name (ContentOther t) = t"

text \<open>
  Lines 12 to 20: the text to parse, or the \<open>ValueError\<close>. A \<open>text\<close> attribute that is not a
  string is assigned like any other, and line 22 raises \<open>AttributeError\<close> when it calls
  \<open>split\<close> on it; that exception is the result here.
\<close>

fun text_content :: "response_content \<Rightarrow> exn + pystr" where
  "text_content (ContentList (TextBlock t # bs)) = Inr t"
| "text_content (ContentList (NonStrText tn # bs)) =
     Inl (AttributeError ([39] @ tn @ [39] @ u '' object has no attribute '' @ [39] @ u ''split'' @ [39]))"
| "text_content (ContentList (OtherBlock s # bs)) = Inr s"
| "text_content (ContentStr s) = Inr s"
| "text_content rc =
     Inl (ValueError (u ''Unexpected response type: <class '' @ [39] @ type_name rc @ [39] @ u ''>''))"

text \<open>Line 22: \<open>[item.strip() for item in text_content.split(",") if item.strip()]\<close>.\<close>

definition comma_items :: "pystr \<Rightarrow> pystr list" where
  "comma_items t = [py_strip item. item \<leftarrow> py_split comma t, py_strip item \<noteq> []]"

definition parse_supplement_list :: "response_content \<Rightarrow> exn + pystr list" where
  "parse_supplement_list rc =
     (case text_content rc of
        Inl e \<Rightarrow> Inl e
      | Inr t \<Rightarrow> Inr (comma_items t))"



section \<open>Python floats\<close>

text \<open>
  A Python \<open>float\<close> is an IEEE 754 double: a finite one is \<open>m * 2 ^ p\<close> for integers \<open>m\<close> and
  \<open>p\<close> (\<open>Finite m p\<close>; the pair need not be normalised, and the sign of zero is not kept),
  and the rest are the two infinities and NaN. Every operation computes the exact result as a
  fraction of integers and rounds it to the nearest double, ties to even.
\<close>

datatype pyfloat = Finite int int | PosInf | NegInf | NaN

text \<open>The value of a finite float.\<close>

fun fval :: "pyfloat \<Rightarrow> rat" where
  "fval (Finite m p) = (if 0 \<le> p then of_int (m * 2 ^ nat p) else of_int m / 2 ^ nat (- p))"
| "fval x = 0"

text \<open>\<open>n / d\<close> rounded to an integer, a tie going to the even neighbour (for \<open>d > 0\<close>).\<close>

definition rhe_div :: "int \<Rightarrow> int \<Rightarrow> int" where
  "rhe_div n d =
     (let q = n div d; r = n mod d
      in if 2 * r < d then q
         else if d < 2 * r then q + 1
         else if even q then q else q + 1)"

text \<open>
  \<open>\<lfloor>log\<^sub>2 (n / d)\<rfloor>\<close> for positive \<open>n\<close> and \<open>d\<close>: the bit lengths give it up to one, and one
  comparison settles it.
\<close>

definition floor_log2 :: "int \<Rightarrow> int \<Rightarrow> int" where
  "floor_log2 n d =
     (let e = bitlen n - bitlen d
      in if (if 0 \<le> e then 2 ^ nat e * d \<le> n else d \<le> n * 2 ^ nat (- e)) then e else e - 1)"

text \<open>
  The double nearest to \<open>n / d\<close> (for \<open>d > 0\<close>): 53 bits of mantissa, so the last bit kept
  is worth \<open>2 ^ (e - 52)\<close> where \<open>e = \<lfloor>log\<^sub>2 |n / d|\<rfloor>\<close>, but never less than \<open>2 ^ -1074\<close>
  (the subnormal range); a result of \<open>2 ^ 1024\<close> or more is an infinity.
\<close>

definition round_fraction :: "int \<Rightarrow> int \<Rightarrow> pyfloat" where
  "round_fraction n d =
     (if n = 0 then Finite 0 0
      else
        let a = \<bar>n\<bar>;
            e = floor_log2 a d;
            p = max (e - 52) (- 1074);
            m = (if 0 \<le> p then rhe_div a (d * 2 ^ nat p) else rhe_div (a * 2 ^ nat (- p)) d)
        in if 0 \<le> p \<and> 2 ^ 1024 \<le> m * 2 ^ nat p then (if 0 < n then PosInf else NegInf)
           else Finite (if 0 < n then m else - m) p)"

text \<open>The double nearest to \<open>n * 2 ^ p\<close>.\<close>

definition round_scaled :: "int \<Rightarrow> int \<Rightarrow> pyfloat" where
  "round_scaled n p = (if 0 \<le> p then round_fraction (n * 2 ^ nat p) 1 else round_fraction n (2 ^ nat (- p)))"

text \<open>The decimal literal \<open>n / d\<close> of the source text, as the float the parser makes of it.\<close>

definition float_literal :: "int \<Rightarrow> int \<Rightarrow> pyfloat" where
  "float_literal n d = round_fraction n d"

text \<open>
  \<open>float(n)\<close> for a Python \<open>int\<close>, as arithmetic between an \<open>int\<close> and a \<open>float\<close> converts
  its \<open>int\<close> operand.
\<close>

definition int_to_float :: "int \<Rightarrow> exn + pyfloat" where
  "int_to_float n =
     (case round_fraction n 1 of
        Finite m p \<Rightarrow> Inr (Finite m p)
      | _ \<Rightarrow> Inl (OverflowError (u ''int too large to convert to float'')))"

text \<open>\<open>a / b\<close> for two Python \<open>int\<close>s: the exact quotient, correctly rounded.\<close>

definition true_div :: "int \<Rightarrow> int \<Rightarrow> exn + pyfloat" where
  "true_div a b =
     (if b = 0 then Inl (ZeroDivisionError (u ''division by zero''))
      else
        case round_fraction (a * sgn b) \<bar>b\<bar> of
          Finite m p \<Rightarrow> Inr (Finite m p)
        | _ \<Rightarrow> Inl (OverflowError (u ''integer division result too large for a float'')))"

fun is_zero :: "pyfloat \<Rightarrow> bool" where
  "is_zero (Finite m p) = (m = 0)"
| "is_zero x = False"

fun is_negative :: "pyfloat \<Rightarrow> bool" where
  "is_negative (Finite m p) = (m < 0)"
| "is_negative NegInf = True"
| "is_negative x = False"

text \<open>\<open>x * y\<close> and \<open>x + y\<close> on floats.\<close>

fun fmul :: "pyfloat \<Rightarrow> pyfloat \<Rightarrow> pyfloat" where
  "fmul (Finite m1 p1) (Finite m2 p2) = round_scaled (m1 * m2) (p1 + p2)"
| "fmul NaN y = NaN"
| "fmul x NaN = NaN"
| "fmul x y =
     (if is_zero x \<or> is_zero y then NaN
      else if is_negative x = is_negative y then PosInf else NegInf)"

fun fadd :: "pyfloat \<Rightarrow> pyfloat \<Rightarrow> pyfloat" where
  "fadd (Finite m1 p1) (Finite m2 p2) =
     (let p = min p1 p2 in round_scaled (m1 * 2 ^ nat (p1 - p) + m2 * 2 ^ nat (p2 - p)) p)"
| "fadd NaN y = NaN"
| "fadd x NaN = NaN"
| "fadd PosInf NegInf = NaN"
| "fadd NegInf PosInf = NaN"
| "fadd (Finite m p) y = y"
| "fadd x y = x"

text \<open>\<open>round(x)\<close>: the nearest \<open>int\<close>, a tie going to the even one.\<close>

fun py_round :: "pyfloat \<Rightarrow> exn + int" where
  "py_round (Finite m p) = Inr (if 0 \<le> p then m * 2 ^ nat p else rhe_div m (2 ^ nat (- p)))"
| "py_round NaN = Inl (ValueError (u ''cannot convert float NaN to integer''))"
| "py_round x = Inl (OverflowError (u ''cannot convert float infinity to integer''))"

text \<open>
  \<open>round(x, 1)\<close>: the exact value of \<open>x\<close> is rounded to a whole number of tenths (a tie going
  to the even one), and the result is the double nearest to that decimal.
\<close>

fun tenths :: "pyfloat \<Rightarrow> int" where
  "tenths (Finite m p) = (if 0 \<le> p then 10 * m * 2 ^ nat p else rhe_div (10 * m) (2 ^ nat (- p)))"
| "tenths x = 0"

fun round1 :: "pyfloat \<Rightarrow> pyfloat" where
  "round1 (Finite m p) = round_fraction (tenths (Finite m p)) 10"
| "round1 x = x"

text \<open>
  \<open>str(x)\<close> for a float that \<open>round(x, 1)\<close> returned: below \<open>10 ^ 16\<close> in magnitude the shortest
  decimal that reads back as \<open>x\<close> is the number of tenths written with one fractional digit
  (\<open>90.7\<close>, \<open>70.0\<close>). Larger magnitudes, which print in exponent notation, are outside what this
  function models.
\<close>

fun str_float1 :: "pyfloat \<Rightarrow> pystr" where
  "str_float1 (Finite m p) =
     (let t = tenths (Finite m p)
      in (if t < 0 then [45] else []) @ str_nat (nat \<bar>t\<bar> div 10) @ [46] @ str_nat (nat \<bar>t\<bar> mod 10))"
| "str_float1 PosInf = u ''inf''"
| "str_float1 NegInf = u ''-inf''"
| "str_float1 NaN = u ''nan''"

text \<open>A number that an f-string formats: an \<open>int\<close>, or a float rounded to one decimal.\<close>

datatype pynum = PyInt int | PyFloat pyfloat

fun str_num :: "pynum \<Rightarrow> pystr" where
  "str_num (PyInt i) = str_int i"
| "str_num (PyFloat x) = str_float1 x"

section \<open>Counter\<close>

text \<open>
  \<open>collections.Counter(xs)\<close>: a dictionary from each element to the number of times it
  occurs. A Python dictionary keeps its keys in the order of first insertion, so it is an
  association list here; \<open>bump\<close> is \<open>d[k] = d.get(k, 0) + 1\<close>.
\<close>

fun bump :: "'a \<Rightarrow> ('a \<times> int) list \<Rightarrow> ('a \<times> int) list" where
  "bump k [] = [(k, 1)]"
| "bump k ((k', c) # d) = (if k = k' then (k', c + 1) # d else (k', c) # bump k d)"

definition Counter :: "'a list \<Rightarrow> ('a \<times> int) list" where
  "Counter xs = foldl (\<lambda>d k. bump k d) [] xs"

section \<open>create_supplement_chart\<close>

text \<open>The bar chart: the one \<open>go.Bar\<close> trace and the layout that \<open>update_layout\<close> sets.\<close>

record figure =
  fig_x :: "int list"
  fig_y :: "pystr list"
  fig_orientation :: pystr
  fig_text :: "pystr list"
  fig_textposition :: pystr
  fig_insidetextanchor :: pystr
  fig_textfont_color :: pystr
  fig_marker_color :: pystr
  fig_xaxis_title :: pystr
  fig_yaxis_title :: pystr
  fig_xaxis_range :: "int \<times> int"
  fig_xaxis_dtick :: int
  fig_height :: int
  fig_margin :: "int \<times> int \<times> int \<times> int"
  fig_yaxis_autorange :: pystr

text \<open>Line 57: \<open>round(count / total_queries * 100)\<close>, for the count \<open>cnt\<close>.\<close>

definition percentage :: "int \<Rightarrow> int \<Rightarrow> exn + int" where
  "percentage cnt total_queries =
     (case true_div cnt total_queries of
        Inl e \<Rightarrow> Inl e
      | Inr q \<Rightarrow> py_round (fmul q (Finite 100 0)))"

text \<open>Lines 56 to 59: the list comprehension stops at the first count that raises.\<close>

fun percentages :: "int list \<Rightarrow> int \<Rightarrow> exn + int list" where
  "percentages [] total_queries = Inr []"
| "percentages (cnt # counts) total_queries =
     (case percentage cnt total_queries of
        Inl e \<Rightarrow> Inl e
      | Inr p \<Rightarrow>
          (case percentages counts total_queries of
             Inl e \<Rightarrow> Inl e
           | Inr ps \<Rightarrow> Inr (p # ps)))"

text \<open>
  \<open>sorted(xs, key=key, reverse=True)\<close> on integer keys: Python's sort is stable, also with
  \<open>reverse=True\<close> (elements with equal keys keep their order), which makes it the stable
  ascending sort on the negated key.
\<close>

definition py_sorted_desc :: "('a \<Rightarrow> int) \<Rightarrow> 'a list \<Rightarrow> 'a list" where
  "py_sorted_desc key xs = sort_key (\<lambda>x. - key x) xs"

text \<open>
  Lines 54 to 98. \<open>zip(*sorted_data)\<close> gives no tuples at all for an empty list, and the
  assignment to two names raises.
\<close>

definition create_supplement_chart :: "(pystr \<times> int) list \<Rightarrow> int \<Rightarrow> exn + figure" where
  "create_supplement_chart supplement_counts total_queries =
     (let supplements = map fst supplement_counts
      in case percentages (map snd supplement_counts) total_queries of
           Inl e \<Rightarrow> Inl e
         | Inr pcts \<Rightarrow>
             (let sorted_data = py_sorted_desc snd (zip supplements pcts)
              in if sorted_data = []
                 then Inl (ValueError (u ''not enough values to unpack (expected 2, got 0)''))
                 else
                   (let sorted_supplements = map fst sorted_data;
                        sorted_percentages = map snd sorted_data
                    in Inr \<lparr>fig_x = sorted_percentages,
                            fig_y = sorted_supplements,
                            fig_orientation = u ''h'',
                            fig_text = map (\<lambda>p. str_int p @ u ''%'') sorted_percentages,
                            fig_textposition = u ''inside'',
                            fig_insidetextanchor = u ''end'',
                            fig_textfont_color = u ''white'',
                            fig_marker_color = u ''#1f77b4'',
                            fig_xaxis_title = u ''Percentage of Queries (%)'',
                            fig_yaxis_title = [],
                            fig_xaxis_range = (0, 100),
                            fig_xaxis_dtick = 20,
                            fig_height = 400 + int (length supplements) * 20,
                            fig_margin = (0, 10, 30, 0),
                            fig_yaxis_autorange = u ''reversed''\<rparr>)))"

text \<open>The bars of a chart, from the top: each supplement with its value and its label.\<close>

definition bars :: "figure \<Rightarrow> (pystr \<times> int) list" where
  "bars fig = zip (fig_y fig) (fig_x fig)"

section \<open>The page, the session and the language-model client\<close>

text \<open>
  What a run of the script puts on the page, in order. The three debug messages are kept by
  the value they print rather than by its \<open>repr\<close>. Input widgets are not listed: their values
  are the script's inputs.
\<close>

datatype debug_msg =
    RawApiResponse response_content
  | ApiResponse "pystr list"
  | SupplementCounts "(pystr \<times> int) list"

datatype ui_event =
    Title pystr
  | Write pystr
  | DebugWrite debug_msg
  | ErrorBox pystr
  | Subheader pystr
  | PlotlyChart figure
  | Caption pystr
  | SidebarTitle pystr
  | SidebarInfo pystr

text \<open>
  The state a run works on: \<open>st.session_state.debug_mode\<close> (absent until a run has set it),
  the prompts sent to the language model so far, and the page.
\<close>

record app_state =
  debug_mode :: "bool option"
  api_calls :: "pystr list"
  page :: "ui_event list"

text \<open>
  \<open>client.messages.create\<close>: what the \<open>k\<close>-th call made (counting from 0) gives for a prompt,
  either an exception or the \<open>content\<close> of the response. The model samples at temperature 1,
  so the reply may differ from call to call.
\<close>

type_synonym api = "nat \<Rightarrow> pystr \<Rightarrow> exn + response_content"

definition st_emit :: "ui_event \<Rightarrow> app_state \<Rightarrow> app_state" where
  "st_emit e s = s\<lparr>page := page s @ [e]\<rparr>"

text \<open>
  What reading \<open>st.session_state.debug_mode\<close> raises while no run has set it. The message of
  the framework goes on with a link to its documentation, which is left out.
\<close>

definition missing_debug_mode :: exn where
  "missing_debug_mode =
     AttributeError (u ''st.session_state has no attribute '' @ [34] @ u ''debug_mode'' @ [34] @
                     u ''. Did you forget to initialize it?'')"

section \<open>get_supplement_information\<close>

definition nl :: pystr where
  "nl = [10]"

text \<open>Lines 26 to 34: the prompt, an f-string around the user profile.\<close>

definition make_prompt :: "pystr \<Rightarrow> pystr" where
  "make_prompt user_info =
     nl @ u ''    Given the following user information:'' @ nl @
     u ''    '' @ user_info @ nl @
     u ''    '' @ nl @
     u ''    Provide a list of 5 supplements that have been studied in scientific literature for potential health benefits related to this person's profile. '' @ nl @
     u ''    Include only supplements with peer-reviewed research support.'' @ nl @
     u ''    Format your response as a comma-separated list of supplement names only.'' @ nl @
     u ''    Do not include any health claims or recommendations.'' @ nl @
     u ''    ''"

text \<open>Lines 47 to 51: the handler of \<open>except Exception\<close>.\<close>

definition fetch_error :: "exn \<Rightarrow> ui_event" where
  "fetch_error e = ErrorBox (u ''An error occurred while fetching supplement information: '' @ str_exn e)"

definition fetch_failed :: "exn \<Rightarrow> app_state \<Rightarrow> pystr list \<times> app_state" where
  "fetch_failed e s = ([], st_emit (fetch_error e) s)"

text \<open>
  Lines 25 to 51. The call is recorded in \<open>api_calls\<close>. Everything after the prompt is inside
  the \<open>try\<close>: an exception of the call, of reading \<open>st.session_state.debug_mode\<close> or of
  \<open>parse_supplement_list\<close> ends in the handler.
\<close>

definition get_supplement_information :: "api \<Rightarrow> pystr \<Rightarrow> app_state \<Rightarrow> pystr list \<times> app_state" where
  "get_supplement_information client user_info s =
     (let prompt = make_prompt user_info;
          response = client (length (api_calls s)) prompt;
          s1 = s\<lparr>api_calls := api_calls s @ [prompt]\<rparr>
      in case response of
           Inl e \<Rightarrow> fetch_failed e s1
         | Inr content \<Rightarrow>
             (case debug_mode s1 of
                None \<Rightarrow> fetch_failed missing_debug_mode s1
              | Some d \<Rightarrow>
                  (let s2 = (if d then st_emit (DebugWrite (RawApiResponse content)) s1 else s1)
                   in case parse_supplement_list content of
                        Inl e \<Rightarrow> fetch_failed e s2
                      | Inr supplements \<Rightarrow> (supplements, s2))))"

section \<open>main\<close>

text \<open>
  What the input widgets return in one run of the script. \<open>tab1_selected\<close> is the truth value
  of \<open>tab1.selected\<close>, where \<open>tab1\<close> is the tab labelled Imperial; \<open>button\<close> is whether the run
  was started by a press of the button; \<open>debug_checkbox\<close> is the state of the sidebar checkbox.
\<close>

record form_inputs =
  age :: int
  gender :: pystr
  diet :: pystr
  activity_level :: pystr
  tab1_selected :: bool
  weight_lbs :: int
  height_ft :: int
  height_in :: int
  weight_kg :: int
  height_cm :: int
  health_interests :: pystr
  button :: bool
  debug_checkbox :: bool

text \<open>The ranges and the choices the widgets allow (lines 113 to 145).\<close>

definition widget_ranges :: "form_inputs \<Rightarrow> bool" where
  "widget_ranges inp \<longleftrightarrow>
     18 \<le> age inp \<and> age inp \<le> 120 \<and>
     gender inp \<in> set [u ''Male'', u ''Female'', u ''Other''] \<and>
     diet inp \<in> set [u ''Omnivore'', u ''Vegetarian'', u ''Vegan'', u ''Pescatarian''] \<and>
     activity_level inp \<in> set [u ''Sedentary'', u ''Moderately Active'', u ''Very Active''] \<and>
     66 \<le> weight_lbs inp \<and> weight_lbs inp \<le> 660 \<and>
     3 \<le> height_ft inp \<and> height_ft inp \<le> 8 \<and>
     0 \<le> height_in inp \<and> height_in inp \<le> 11 \<and>
     30 \<le> weight_kg inp \<and> weight_kg inp \<le> 300 \<and>
     100 \<le> height_cm inp \<and> height_cm inp \<le> 250"

text \<open>
  \<open>round(weight_lbs * 0.45359237, 1)\<close> and
  \<open>round((height_ft * 30.48) + (height_in * 2.54), 1)\<close>.
\<close>

definition lbs_to_kg :: "int \<Rightarrow> exn + pyfloat" where
  "lbs_to_kg lbs =
     (case int_to_float lbs of
        Inl e \<Rightarrow> Inl e
      | Inr x \<Rightarrow> Inr (round1 (fmul x (float_literal 45359237 100000000))))"

definition ft_in_to_cm :: "int \<Rightarrow> int \<Rightarrow> exn + pyfloat" where
  "ft_in_to_cm ft inch =
     (case int_to_float ft of
        Inl e \<Rightarrow> Inl e
      | Inr x \<Rightarrow>
          (case int_to_float inch of
             Inl e \<Rightarrow> Inl e
           | Inr y \<Rightarrow> Inr (round1 (fadd (fmul x (float_literal 3048 100)) (fmul y (float_literal 254 100))))))"

text \<open>Lines 147 to 153: the weight and the height that go into the profile.\<close>

definition metric_values :: "form_inputs \<Rightarrow> exn + (pynum \<times> pynum)" where
  "metric_values inp =
     (if tab1_selected inp then Inr (PyInt (weight_kg inp), PyInt (height_cm inp))
      else
        case lbs_to_kg (weight_lbs inp) of
          Inl e \<Rightarrow> Inl e
        | Inr weight \<Rightarrow>
            (case ft_in_to_cm (height_ft inp) (height_in inp) of
               Inl e \<Rightarrow> Inl e
             | Inr height \<Rightarrow> Inr (PyFloat weight, PyFloat height)))"

text \<open>Line 160: the profile sent to the model.\<close>

definition user_info :: "form_inputs \<Rightarrow> pynum \<Rightarrow> pynum \<Rightarrow> pystr" where
  "user_info inp weight height =
     u ''Age: '' @ str_int (age inp) @
     u '', Gender: '' @ gender inp @
     u '', Weight: '' @ str_num weight @ u ''kg'' @
     u '', Height: '' @ str_num height @ u ''cm'' @
     u '', Activity Level: '' @ activity_level inp @
     u '', Dietary Preference: '' @ diet inp @
     u '', Health Interests: '' @ health_interests inp"

definition num_queries :: nat where
  "num_queries = 5"

text \<open>
  Lines 165 to 169: \<open>for _ in range(n)\<close>, with the supplements collected so far. Reading
  \<open>st.session_state.debug_mode\<close> on line 168 is outside any \<open>try\<close>.
\<close>

fun query_loop :: "api \<Rightarrow> pystr \<Rightarrow> nat \<Rightarrow> pystr list \<Rightarrow> app_state \<Rightarrow> (exn + pystr list) \<times> app_state" where
  "query_loop client info 0 all_supplements s = (Inr all_supplements, s)"
| "query_loop client info (Suc n) all_supplements s =
     (case get_supplement_information client info s of
        (supplements, s1) \<Rightarrow>
          (case debug_mode s1 of
             None \<Rightarrow> (Inl missing_debug_mode, s1)
           | Some d \<Rightarrow>
               query_loop client info n (all_supplements @ supplements)
                 (if d then st_emit (DebugWrite (ApiResponse supplements)) s1 else s1)))"

definition title_text :: pystr where
  "title_text = u ''AI-Powered Supplement Information Tool''"

definition intro_text :: pystr where
  "intro_text =
     nl @ u ''    This tool provides information about supplements that have been studied in scientific literature. '' @ nl @
     u ''    It does not make recommendations or provide medical advice. '' @ nl @
     u ''    Always consult with a qualified healthcare professional before starting any supplement regimen.'' @ nl @
     u ''    ''"

definition chart_heading :: pystr where
  "chart_heading = u ''Supplement Mention Frequency in Scientific Literature''"

definition chart_note :: pystr where
  "chart_note = u ''This chart shows how often each supplement was mentioned across multiple queries to the AI model.''"

definition chart_reminder :: pystr where
  "chart_reminder = u ''Remember: Mention frequency in scientific literature does not imply effectiveness or safety for your specific situation.''"

definition unable_text :: pystr where
  "unable_text = u ''Unable to fetch supplement information. Please try again later.''"

definition disclaimer_text :: pystr where
  "disclaimer_text =
     nl @ u ''        Disclaimer: This information is for educational purposes only and does not constitute medical advice. '' @ nl @
     u ''        The mentions of supplements are based on AI analysis of scientific literature and may not be comprehensive or up-to-date. '' @ nl @
     u ''        Individual responses to supplements can vary greatly. '' @ nl @
     u ''        Always consult with a qualified healthcare provider before starting any new supplement regimen.'' @ nl @
     u ''        ''"

definition about_text :: pystr where
  "about_text =
     nl @ u ''    Max Ghenis built this app using the Claude 3.5 Sonnet API.'' @ nl @
     u ''    '' @ nl @
     u ''    No user data is collected or stored.'' @ nl @
     u ''    '' @ nl @
     u ''    For questions or feedback, please contact me at mghenis@gmail.com.'' @ nl @
     u ''    ''"

text \<open>
  Lines 171 to 194: what is shown for the supplements collected. The result says whether an
  exception ended the run.
\<close>

definition show_results :: "pystr list \<Rightarrow> app_state \<Rightarrow> exn option \<times> app_state" where
  "show_results all_supplements s =
     (if all_supplements \<noteq> [] then
        (let supplement_counts = Counter all_supplements
         in case debug_mode s of
              None \<Rightarrow> (Some missing_debug_mode, s)
            | Some d \<Rightarrow>
                (let s1 = (if d then st_emit (DebugWrite (SupplementCounts supplement_counts)) s else s);
                     s2 = st_emit (Subheader chart_heading) s1
                 in case create_supplement_chart supplement_counts (int num_queries) of
                      Inl e \<Rightarrow> (Some e, s2)
                    | Inr fig \<Rightarrow>
                        (None, st_emit (Write chart_reminder)
                                 (st_emit (Write chart_note) (st_emit (PlotlyChart fig) s2)))))
      else (None, st_emit (ErrorBox unable_text) s))"

text \<open>Lines 159 to 203: the body of \<open>if st.button(...)\<close>.\<close>

definition on_button :: "api \<Rightarrow> pystr \<Rightarrow> app_state \<Rightarrow> exn option \<times> app_state" where
  "on_button client info s =
     (case query_loop client info num_queries [] s of
        (Inl e, s1) \<Rightarrow> (Some e, s1)
      | (Inr all_supplements, s1) \<Rightarrow>
          (case show_results all_supplements s1 of
             (Some e, s2) \<Rightarrow> (Some e, s2)
           | (None, s2) \<Rightarrow> (None, st_emit (Caption disclaimer_text) s2)))"

text \<open>Lines 205 to 224: the sidebar, and the debug flag kept in the session.\<close>

definition sidebar :: "form_inputs \<Rightarrow> app_state \<Rightarrow> app_state" where
  "sidebar inp s =
     (let s1 = st_emit (SidebarInfo about_text) (st_emit (SidebarTitle (u ''About'')) s);
          s2 = (if debug_mode s1 = None then s1\<lparr>debug_mode := Some False\<rparr> else s1)
      in s2\<lparr>debug_mode := Some (debug_checkbox inp)\<rparr>)"

text \<open>
  Lines 101 to 224: one run of the script body on the state it is given. An exception ends
  the run where it is raised.
\<close>

definition main :: "api \<Rightarrow> form_inputs \<Rightarrow> app_state \<Rightarrow> exn option \<times> app_state" where
  "main client inp s =
     (let s1 = st_emit (Write intro_text) (st_emit (Title title_text) s)
      in case metric_values inp of
           Inl e \<Rightarrow> (Some e, s1)
         | Inr (weight, height) \<Rightarrow>
             (case (if button inp then on_button client (user_info inp weight height) s1
                    else (None, s1)) of
                (Some e, s2) \<Rightarrow> (Some e, s2)
              | (None, s2) \<Rightarrow> (None, sidebar inp s2)))"

text \<open>A run of the script in a session: the page starts empty, the rest of the state is kept.\<close>

definition script_run :: "api \<Rightarrow> form_inputs \<Rightarrow> app_state \<Rightarrow> exn option \<times> app_state" where
  "script_run client inp s = main client inp (s\<lparr>page := []\<rparr>)"

section \<open>What a press of the button collects and shows\<close>

text \<open>
  The notions the properties below are stated with. \<open>replies\<close> are the responses to the next
  \<open>n\<close> calls made from a state; \<open>reply_supplements\<close> is the list
  \<open>get_supplement_information\<close> makes of one response, and \<open>collected\<close> is
  \<open>all_supplements\<close> after the \<open>n\<close> queries.
\<close>

definition replies :: "api \<Rightarrow> pystr \<Rightarrow> app_state \<Rightarrow> nat \<Rightarrow> (exn + response_content) list" where
  "replies client info s n = map (\<lambda>k. client (length (api_calls s) + k) (make_prompt info)) [0..<n]"

definition reply_supplements :: "exn + response_content \<Rightarrow> pystr list" where
  "reply_supplements r =
     (case r of
        Inl e \<Rightarrow> []
      | Inr content \<Rightarrow>
          (case parse_supplement_list content of
             Inl e \<Rightarrow> []
           | Inr supplements \<Rightarrow> supplements))"

definition collected :: "api \<Rightarrow> pystr \<Rightarrow> app_state \<Rightarrow> nat \<Rightarrow> pystr list" where
  "collected client info s n = concat (map reply_supplements (replies client info s n))"

text \<open>
  The events one query adds to the page, those the loop adds for a list of responses, and
  those \<open>show_results\<close> adds, for a debug flag \<open>d\<close>.
\<close>

definition fetch_events :: "bool \<Rightarrow> exn + response_content \<Rightarrow> ui_event list" where
  "fetch_events d r =
     (case r of
        Inl e \<Rightarrow> [fetch_error e]
      | Inr content \<Rightarrow>
          (if d then [DebugWrite (RawApiResponse content)] else []) @
          (case parse_supplement_list content of
             Inl e \<Rightarrow> [fetch_error e]
           | Inr supplements \<Rightarrow> []))"

definition loop_events :: "bool \<Rightarrow> (exn + response_content) list \<Rightarrow> ui_event list" where
  "loop_events d rs =
     concat (map (\<lambda>r. fetch_events d r @
                        (if d then [DebugWrite (ApiResponse (reply_supplements r))] else [])) rs)"

definition results_events :: "bool \<Rightarrow> pystr list \<Rightarrow> ui_event list" where
  "results_events d all_supplements =
     (if all_supplements \<noteq> [] then
        (if d then [DebugWrite (SupplementCounts (Counter all_supplements))] else []) @
        [Subheader chart_heading] @
        (case create_supplement_chart (Counter all_supplements) (int num_queries) of
           Inl e \<Rightarrow> []
         | Inr fig \<Rightarrow> [PlotlyChart fig, Write chart_note, Write chart_reminder])
      else [ErrorBox unable_text])"

text \<open>A response for which the call, or the parsing of what it returned, raises.\<close>

definition reply_failed :: "exn + response_content \<Rightarrow> bool" where
  "reply_failed r =
     (case r of
        Inl e \<Rightarrow> True
      | Inr content \<Rightarrow>
          (case parse_supplement_list content of
             Inl e \<Rightarrow> True
           | Inr supplements \<Rightarrow> False))"

text \<open>The exception, if any, that ends \<open>show_results\<close>: one that the chart raises.\<close>

definition results_exn :: "pystr list \<Rightarrow> exn option" where
  "results_exn all_supplements =
     (if all_supplements \<noteq> [] then
        (case create_supplement_chart (Counter all_supplements) (int num_queries) of
           Inl e \<Rightarrow> Some e
         | Inr fig \<Rightarrow> None)
      else None)"

text \<open>The events of a page that are not debug output, and the charts among them.\<close>

fun is_debug :: "ui_event \<Rightarrow> bool" where
  "is_debug (DebugWrite m) = True"
| "is_debug e = False"

definition without_debug :: "ui_event list \<Rightarrow> ui_event list" where
  "without_debug evs = filter (\<lambda>e. \<not> is_debug e) evs"

fun charts :: "ui_event list \<Rightarrow> figure list" where
  "charts [] = []"
| "charts (PlotlyChart fig # evs) = fig # charts evs"
| "charts (e # evs) = charts evs"

section \<open>Example inputs\<close>

text \<open>
  The values the widgets start with (lines 113 to 145; a select box starts at its first
  option), with the tab labelled Imperial, the first one, taken as the one in use.
\<close>

definition default_inputs :: form_inputs where
  "default_inputs =
     \<lparr>age = 30, gender = u ''Male'', diet = u ''Omnivore'', activity_level = u ''Sedentary'',
      tab1_selected = True, weight_lbs = 154, height_ft = 5, height_in = 7,
      weight_kg = 70, height_cm = 170, health_interests = [],
      button = False, debug_checkbox = False\<rparr>"

text \<open>A session in which an earlier run has set the debug flag, to off.\<close>

definition ready_state :: app_state where
  "ready_state = \<lparr>debug_mode = Some False, api_calls = [], page = []\<rparr>"

text \<open>A model that answers every query with the same supplement named twice.\<close>

definition zinc_twice :: api where
  "zinc_twice k prompt = Inr (ContentList [TextBlock (u ''Zinc, Zinc'')])"

text \<open>A client whose every call raises.\<close>

definition always_fails :: api where
  "always_fails k prompt = Inl (APIError (u ''Overloaded''))"

text \<open>A session that has already made a call and shown a page, with the debug flag on.\<close>

definition busy_state :: app_state where
  "busy_state = \<lparr>debug_mode = Some True, api_calls = [u ''an earlier prompt''], page = [Title title_text]\<rparr>"

text \<open>
  A press of the button by a user who works in the Imperial tab: 200 lbs, 6 ft 0 in, with the
  fields of the Metric tab left at their starting values.
\<close>

definition imperial_example :: form_inputs where
  "imperial_example = default_inputs\<lparr>button := True, weight_lbs := 200, height_ft := 6, height_in := 0\<rparr>"

section \<open>Properties of the string functions\<close>

lemma py_split_not_Nil: "py_split sep s \<noteq> []"
  by (induction s) (auto split: list.splits)

lemma py_join_split: "py_join sep (py_split sep s) = s"
proof (induction s)
  case Nil
  show ?case by simp
next
  case (Cons c cs)
  obtain p ps where ps: "py_split sep cs = p # ps"
    using py_split_not_Nil [of sep cs] by (cases "py_split sep cs") auto
  show ?case
  proof (cases "c = sep")
    case True
    with Cons ps show ?thesis by simp
  next
    case False
    with Cons ps show ?thesis by (cases ps) auto
  qed
qed

lemma py_split_no_sep: "piece \<in> set (py_split sep s) \<Longrightarrow> sep \<notin> set piece"
proof (induction s arbitrary: piece)
  case Nil
  then show ?case by simp
next
  case (Cons c cs)
  obtain p ps where ps: "py_split sep cs = p # ps"
    using py_split_not_Nil [of sep cs] by (cases "py_split sep cs") auto
  have IH: "\<And>q. q \<in> set (p # ps) \<Longrightarrow> sep \<notin> set q"
    using Cons.IH ps by simp
  show ?case
  proof (cases "c = sep")
    case True
    with Cons.prems ps IH show ?thesis by auto
  next
    case False
    with Cons.prems ps have "piece = c # p \<or> piece \<in> set ps" by auto
    with False IH show ?thesis by auto
  qed
qed

lemma last_dropWhile_snoc: "\<not> P x \<Longrightarrow> last (dropWhile P (ys @ [x])) = x"
  by (induction ys) auto

lemma dropWhile_snoc_not_Nil: "\<not> P x \<Longrightarrow> dropWhile P (ys @ [x]) \<noteq> []"
  by (induction ys) auto

lemma py_strip_no_leading: "py_strip s \<noteq> [] \<Longrightarrow> \<not> isspace (hd (py_strip s))"
proof -
  assume ne: "py_strip s \<noteq> []"
  have "dropWhile isspace s = [] \<Longrightarrow> py_strip s = []"
    unfolding py_strip_def by (simp only: rev.simps dropWhile.simps)
  with ne have d_ne: "dropWhile isspace s \<noteq> []"
    by blast
  then obtain x xs where d: "dropWhile isspace s = x # xs"
    by (cases "dropWhile isspace s") auto
  have x: "\<not> isspace x"
    using hd_dropWhile [OF d_ne] d by simp
  have "hd (py_strip s) = last (dropWhile isspace (rev xs @ [x]))"
    using x dropWhile_snoc_not_Nil [of isspace x "rev xs"] by (simp add: py_strip_def d hd_rev)
  with x show ?thesis
    by (simp add: last_dropWhile_snoc [of isspace])
qed

lemma py_strip_no_trailing: "py_strip s \<noteq> [] \<Longrightarrow> \<not> isspace (last (py_strip s))"
proof -
  assume ne: "py_strip s \<noteq> []"
  then have "dropWhile isspace (rev (dropWhile isspace s)) \<noteq> []"
    by (simp add: py_strip_def)
  then have "\<not> isspace (hd (dropWhile isspace (rev (dropWhile isspace s))))"
    by (rule hd_dropWhile)
  then show ?thesis using ne by (simp add: py_strip_def last_rev)
qed

section \<open>Properties of parse_supplement_list\<close>

lemma comma_items_filter:
  "comma_items t = filter (\<lambda>x. x \<noteq> []) (map py_strip (py_split comma t))"
proof -
  have "concat (map (\<lambda>item. if py_strip item \<noteq> [] then [py_strip item] else []) xs)
        = filter (\<lambda>x. x \<noteq> []) (map py_strip xs)" for xs
    by (induction xs) auto
  then show ?thesis
    by (simp add: comma_items_def)
qed

lemma comma_items_stripped:
  assumes "item \<in> set (comma_items t)"
  shows "item \<noteq> [] \<and> \<not> isspace (hd item) \<and> \<not> isspace (last item)"
proof -
  from assms obtain piece where "item = py_strip piece" and "py_strip piece \<noteq> []"
    by (auto simp: comma_items_filter)
  then show ?thesis
    using py_strip_no_leading [of piece] py_strip_no_trailing [of piece] by simp
qed

text \<open>
  C8. Whenever \<open>parse_supplement_list\<close> returns, every element of the list is a string
  that is not empty and neither starts nor ends with whitespace, and the list is exactly the
  stripped pieces of the underlying text between its commas, in their order, with the empty
  ones left out.
\<close>

theorem parse_supplement_list_items:
  assumes "parse_supplement_list rc = Inr items"
  shows "(\<forall>item \<in> set items. item \<noteq> [] \<and> \<not> isspace (hd item) \<and> \<not> isspace (last item)) \<and>
         (\<exists>t. text_content rc = Inr t \<and>
              items = filter (\<lambda>x. x \<noteq> []) (map py_strip (py_split comma t)))"
proof -
  from assms obtain t where t: "text_content rc = Inr t" and items: "items = comma_items t"
    by (auto simp: parse_supplement_list_def split: sum.splits)
  have "\<forall>item \<in> set items. item \<noteq> [] \<and> \<not> isspace (hd item) \<and> \<not> isspace (last item)"
    using comma_items_stripped items by blast
  moreover have "items = filter (\<lambda>x. x \<noteq> []) (map py_strip (py_split comma t))"
    using items by (simp add: comma_items_filter)
  ultimately show ?thesis
    using t by blast
qed

theorem parse_supplement_list_items_witness:
  "parse_supplement_list (ContentList [TextBlock (u '' Zinc, , Iron ,'')]) = Inr [u ''Zinc'', u ''Iron''] \<and>
   u ''Zinc'' \<noteq> [] \<and> \<not> isspace (hd (u ''Zinc'')) \<and> \<not> isspace (last (u ''Zinc'')) \<and>
   \<not> isspace (hd (u ''Iron'')) \<and> \<not> isspace (last (u ''Iron''))"
proof -
  have run: "parse_supplement_list (ContentList [TextBlock (u '' Zinc, , Iron ,'')])
             = Inr [u ''Zinc'', u ''Iron'']"
    by (simp add: parse_supplement_list_def comma_items_def u_def py_strip_def isspace_def comma_def)
  from parse_supplement_list_items [OF run] run show ?thesis
    by simp
qed



section \<open>Properties of Counter\<close>

lemma map_of_bump:
  "map_of (bump k d) = (map_of d)(k \<mapsto> (case map_of d k of None \<Rightarrow> 1 | Some c \<Rightarrow> c + 1))"
  by (induction d) (auto simp: fun_eq_iff)

lemma map_fst_bump:
  "map fst (bump k d) = (if k \<in> set (map fst d) then map fst d else map fst d @ [k])"
  by (induction d) force+

lemma keys_bump: "fst ` set (bump k d) = insert k (fst ` set d)"
  using map_fst_bump [of k d] by (metis (no_types, lifting) Un_insert_right insert_absorb
      list.set(1,2) set_append set_map sup_bot_right)

lemma distinct_bump: "distinct (map fst d) \<Longrightarrow> distinct (map fst (bump k d))"
  by (simp add: map_fst_bump)

lemma foldl_bump_lookup:
  "map_of (foldl (\<lambda>d k. bump k d) d0 xs) x =
     (if x \<in> set xs
      then Some ((case map_of d0 x of None \<Rightarrow> 0 | Some c \<Rightarrow> c) + int (count_list xs x))
      else map_of d0 x)"
proof (induction xs arbitrary: d0)
  case Nil
  show ?case by simp
next
  case (Cons y ys)
  show ?case
    by (simp add: Cons.IH map_of_bump split: option.splits)
qed

lemma foldl_bump_distinct:
  "distinct (map fst d0) \<Longrightarrow> distinct (map fst (foldl (\<lambda>d k. bump k d) d0 xs))"
  by (induction xs arbitrary: d0) (simp_all add: distinct_bump)

lemma foldl_bump_keys:
  "fst ` set (foldl (\<lambda>d k. bump k d) d0 xs) = fst ` set d0 \<union> set xs"
  by (induction xs arbitrary: d0) (auto simp: keys_bump)

lemma Counter_lookup:
  "map_of (Counter xs) x = (if x \<in> set xs then Some (int (count_list xs x)) else None)"
  by (simp add: Counter_def foldl_bump_lookup)

lemma Counter_distinct: "distinct (map fst (Counter xs))"
  by (simp add: Counter_def foldl_bump_distinct)

lemma Counter_keys: "fst ` set (Counter xs) = set xs"
  by (simp add: Counter_def foldl_bump_keys)

lemma Counter_empty_iff: "Counter xs = [] \<longleftrightarrow> xs = []"
  using Counter_keys [of xs] by (metis image_is_empty set_empty)

lemma Counter_entry:
  "(k, c) \<in> set (Counter xs) \<longleftrightarrow> k \<in> set xs \<and> c = int (count_list xs k)"
proof -
  have "(k, c) \<in> set (Counter xs) \<longleftrightarrow> map_of (Counter xs) k = Some c"
    using Counter_distinct [of xs] by simp
  then show ?thesis
    by (auto simp: Counter_lookup)
qed

section \<open>Properties of the chart\<close>

lemma percentages_all2:
  "percentages cs N = Inr ps \<longleftrightarrow> list_all2 (\<lambda>c p. percentage c N = Inr p) cs ps"
proof (induction cs arbitrary: ps)
  case Nil
  show ?case by auto
next
  case (Cons c cs)
  have "percentages (c # cs) N = Inr ps \<longleftrightarrow>
        (\<exists>p ps'. ps = p # ps' \<and> percentage c N = Inr p \<and> percentages cs N = Inr ps')"
    by (auto split: sum.splits)
  then show ?case
    by (simp add: Cons.IH list_all2_Cons1)
qed

lemma percentages_length: "percentages cs N = Inr ps \<Longrightarrow> length ps = length cs"
  by (simp add: percentages_all2 list_all2_lengthD)

lemma percentages_returns:
  "(\<exists>ps. percentages cs N = Inr ps) \<longleftrightarrow> (\<forall>c \<in> set cs. \<exists>p. percentage c N = Inr p)"
proof (induction cs)
  case Nil
  show ?case by simp
next
  case (Cons c cs)
  then show ?case
    by (auto split: sum.splits)
qed

lemma mset_py_sorted_desc: "mset (py_sorted_desc key xs) = mset xs"
  by (simp add: py_sorted_desc_def)

lemma set_py_sorted_desc: "set (py_sorted_desc key xs) = set xs"
  by (simp add: py_sorted_desc_def)

lemma length_py_sorted_desc: "length (py_sorted_desc key xs) = length xs"
  by (simp add: py_sorted_desc_def)

lemma py_sorted_desc_Nil_iff: "py_sorted_desc key xs = [] \<longleftrightarrow> xs = []"
  using length_py_sorted_desc [of key xs] by (metis length_0_conv)

lemma sorted_py_sorted_desc: "sorted_wrt (\<ge>) (map key (py_sorted_desc key xs))"
proof -
  have "sorted (map (\<lambda>x. - key x) (py_sorted_desc key xs))"
    unfolding py_sorted_desc_def by (rule sorted_sort_key)
  then have "sorted_wrt (\<lambda>a b. - key a \<le> - key b) (py_sorted_desc key xs)"
    by (simp add: sorted_wrt_map)
  then show ?thesis
    by (simp add: sorted_wrt_map)
qed

lemma py_sorted_desc_stable:
  "filter (\<lambda>x. key x = k) (py_sorted_desc key xs) = filter (\<lambda>x. key x = k) xs"
  using sort_key_stable [of "\<lambda>x. - key x" "- k" xs] by (simp add: py_sorted_desc_def)

lemma create_supplement_chart_Inr:
  assumes "create_supplement_chart counts N = Inr fig"
  obtains pcts where "percentages (map snd counts) N = Inr pcts"
    and "counts \<noteq> []"
    and "bars fig = py_sorted_desc snd (zip (map fst counts) pcts)"
    and "fig_x fig = map snd (bars fig)"
    and "fig_y fig = map fst (bars fig)"
    and "fig_text fig = map (\<lambda>p. str_int p @ u ''%'') (fig_x fig)"
    and "fig_orientation fig = u ''h''"
    and "fig_xaxis_range fig = (0, 100)"
proof -
  from assms obtain pcts where p: "percentages (map snd counts) N = Inr pcts"
    by (auto simp: create_supplement_chart_def Let_def split: sum.splits)
  let ?sd = "py_sorted_desc snd (zip (map fst counts) pcts)"
  from assms p have ne: "?sd \<noteq> []"
    by (auto simp: create_supplement_chart_def Let_def split: if_splits)
  from assms p ne have fig: "fig_x fig = map snd ?sd" "fig_y fig = map fst ?sd"
    "fig_text fig = map (\<lambda>p. str_int p @ u ''%'') (map snd ?sd)"
    "fig_orientation fig = u ''h''" "fig_xaxis_range fig = (0, 100)"
    by (auto simp: create_supplement_chart_def Let_def)
  have b: "bars fig = ?sd"
    by (simp add: bars_def fig zip_map_fst_snd)
  have "counts \<noteq> []"
    using ne by (auto simp: py_sorted_desc_def)
  with p b fig that show thesis
    by simp
qed

lemma create_supplement_chart_returns:
  assumes "counts \<noteq> []" and "percentages (map snd counts) N = Inr pcts"
  shows "\<exists>fig. create_supplement_chart counts N = Inr fig"
proof -
  have "length pcts = length counts"
    using percentages_length [OF assms(2)] by simp
  with assms(1) have "zip (map fst counts) pcts \<noteq> []"
    by (cases counts; cases pcts) auto
  then have "py_sorted_desc snd (zip (map fst counts) pcts) \<noteq> []"
    by (simp add: py_sorted_desc_Nil_iff)
  with assms(2) show ?thesis
    by (simp add: create_supplement_chart_def Let_def)
qed

section \<open>Properties of the float operations\<close>

lemma rhe_div_error:
  assumes "0 < d"
  shows "\<bar>2 * (rhe_div n d * d - n)\<bar> \<le> d"
proof -
  define q where "q = n div d"
  define r where "r = n mod d"
  have n: "n = q * d + r"
    by (simp add: q_def r_def)
  have r: "0 \<le> r" "r < d"
    using assms by (simp_all add: r_def)
  have "rhe_div n d = (if 2 * r < d then q else if d < 2 * r then q + 1 else if even q then q else q + 1)"
    by (simp add: rhe_div_def Let_def q_def r_def)
  then show ?thesis
    using r by (auto simp: n algebra_simps)
qed

lemma rhe_div_error_rat:
  assumes "0 < d"
  shows "\<bar>of_int (rhe_div n d) - (of_int n / of_int d :: rat)\<bar> \<le> 1 / 2"
proof -
  have "(of_int \<bar>2 * (rhe_div n d * d - n)\<bar> :: rat) \<le> of_int d"
    using rhe_div_error [OF assms, of n] by (simp only: of_int_le_iff)
  then have "\<bar>2 * (of_int (rhe_div n d) * of_int d - of_int n)\<bar> \<le> (of_int d :: rat)"
    by simp
  moreover have "(0::rat) < of_int d" using assms by simp
  ultimately show ?thesis
    by (simp add: field_simps abs_if split: if_splits)
qed

lemma rhe_div_nonneg: "0 < d \<Longrightarrow> 0 \<le> n \<Longrightarrow> 0 \<le> rhe_div n d"
  by (auto simp: rhe_div_def Let_def pos_imp_zdiv_nonneg_iff intro: add_nonneg_nonneg)

lemma fval_Finite: "fval (Finite m p) = of_int m * 2 powi p"
  by (simp add: power_int_def field_simps)

declare fval.simps [simp del]

lemma floor_log2_lower:
  assumes "0 < n" and "0 < d"
  shows "(2::rat) powi (floor_log2 n d) \<le> of_int n / of_int d"
proof -
  define e where "e = bitlen n - bitlen d"
  have dpos: "(0::rat) < of_int d" using assms by simp
  have fl_eq: "floor_log2 n d =
      (if (if 0 \<le> e then 2 ^ nat e * d \<le> n else d \<le> n * 2 ^ nat (- e)) then e else e - 1)"
    by (simp only: floor_log2_def Let_def e_def)
  show ?thesis
  proof (cases "if 0 \<le> e then 2 ^ nat e * d \<le> n else d \<le> n * 2 ^ nat (- e)")
    case True
    then have fl: "floor_log2 n d = e"
      unfolding fl_eq by (rule if_P)
    show ?thesis
    proof (cases "0 \<le> e")
      case nonneg: True
      with True have "2 ^ nat e * d \<le> n" by simp
      then have "(of_int (2 ^ nat e * d) :: rat) \<le> of_int n"
        by (simp only: of_int_le_iff)
      then have "(2::rat) ^ nat e * of_int d \<le> of_int n" by simp
      then have "(2::rat) ^ nat e \<le> of_int n / of_int d"
        using dpos by (simp add: field_simps)
      then show ?thesis using nonneg by (simp add: fl power_int_def)
    next
      case neg: False
      with True have "d \<le> n * 2 ^ nat (- e)" by simp
      then have "(of_int d :: rat) \<le> of_int (n * 2 ^ nat (- e))"
        by (simp only: of_int_le_iff)
      then have "(of_int d :: rat) \<le> of_int n * 2 ^ nat (- e)" by simp
      then have "1 / (2::rat) ^ nat (- e) \<le> of_int n / of_int d"
        using dpos by (simp add: field_simps)
      then show ?thesis using neg by (simp add: fl power_int_def field_simps)
    qed
  next
    case False
    then have fl: "floor_log2 n d = e - 1"
      unfolding fl_eq by (rule if_not_P)
    have bn: "2 ^ nat (bitlen n - 1) \<le> n" and bd: "d < 2 ^ nat (bitlen d)"
      using bitlen_bounds [OF assms(1)] bitlen_bounds [OF assms(2)] by simp_all
    have bn1: "1 \<le> bitlen n" using assms(1) bitlen_eq_zero_iff [of n] bitlen_nonneg [of n] by linarith
    have bd0: "0 \<le> bitlen d" by (rule bitlen_nonneg)
    have "(of_int (2 ^ nat (bitlen n - 1)) :: rat) \<le> of_int n"
      using bn by (simp only: of_int_le_iff)
    then have n_lb: "(2::rat) powi (bitlen n - 1) \<le> of_int n"
      using bn1 by (simp add: power_int_def)
    have "(of_int d :: rat) < of_int (2 ^ nat (bitlen d))"
      using bd by (simp only: of_int_less_iff)
    then have d_ub: "(of_int d :: rat) \<le> 2 powi (bitlen d)"
      using bd0 by (simp add: power_int_def)
    have "(2::rat) powi (e - 1) = 2 powi (bitlen n - 1) / 2 powi (bitlen d)"
      by (simp add: e_def power_int_diff [symmetric] algebra_simps)
    also have "\<dots> \<le> of_int n / 2 powi (bitlen d)"
      using n_lb by (simp add: divide_right_mono)
    also have "\<dots> \<le> of_int n / of_int d"
      using d_ub dpos assms(1) by (simp add: frac_le)
    finally show ?thesis by (simp add: fl)
  qed
qed

lemma round_fraction_core:
  assumes d: "0 < d" and n: "n \<noteq> 0"
  obtains m p where
    "0 \<le> m"
    "\<bar>of_int m * 2 powi p - (of_int \<bar>n\<bar> / of_int d :: rat)\<bar> \<le> 2 powi p / 2"
    "(2::rat) powi p \<le> max ((of_int \<bar>n\<bar> / of_int d) / 2 ^ 52) (2 powi (- 1074))"
    "round_fraction n d =
       (if 0 \<le> p \<and> 2 ^ 1024 \<le> m * 2 ^ nat p then (if 0 < n then PosInf else NegInf)
        else Finite (if 0 < n then m else - m) p)"
proof -
  define a where "a = \<bar>n\<bar>"
  define q :: rat where "q = of_int a / of_int d"
  define e where "e = floor_log2 a d"
  define p where "p = max (e - 52) (- 1074)"
  define m where "m = (if 0 \<le> p then rhe_div a (d * 2 ^ nat p) else rhe_div (a * 2 ^ nat (- p)) d)"
  define P :: rat where "P = 2 powi p"
  have apos: "0 < a" using n by (simp add: a_def)
  have Ppos: "0 < P" by (simp add: P_def)
  have dpos: "(0::rat) < of_int d" using d by simp
  have rf: "round_fraction n d =
       (if 0 \<le> p \<and> 2 ^ 1024 \<le> m * 2 ^ nat p then (if 0 < n then PosInf else NegInf)
        else Finite (if 0 < n then m else - m) p)"
    using n by (simp only: round_fraction_def Let_def a_def e_def p_def m_def if_False)
  have m0: "0 \<le> m"
    using apos d by (auto simp: m_def intro!: rhe_div_nonneg mult_pos_pos)
  have near: "\<bar>of_int m - q / P\<bar> \<le> 1 / 2"
  proof (cases "0 \<le> p")
    case True
    then have "m = rhe_div a (d * 2 ^ nat p)" by (simp add: m_def)
    moreover have "0 < d * 2 ^ nat p" using d by simp
    ultimately have "\<bar>of_int m - (of_int a / of_int (d * 2 ^ nat p) :: rat)\<bar> \<le> 1 / 2"
      using rhe_div_error_rat [of "d * 2 ^ nat p" a] by simp
    moreover have "(of_int a / of_int (d * 2 ^ nat p) :: rat) = q / P"
      using True by (simp add: q_def P_def power_int_def)
    ultimately show ?thesis by simp
  next
    case False
    then have "m = rhe_div (a * 2 ^ nat (- p)) d" by (simp add: m_def)
    then have "\<bar>of_int m - (of_int (a * 2 ^ nat (- p)) / of_int d :: rat)\<bar> \<le> 1 / 2"
      using rhe_div_error_rat [OF d, of "a * 2 ^ nat (- p)"] by simp
    moreover have "(of_int (a * 2 ^ nat (- p)) / of_int d :: rat) = q / P"
      using False by (simp add: q_def P_def power_int_def field_simps)
    ultimately show ?thesis by simp
  qed
  have "of_int m * P - q = (of_int m - q / P) * P"
    using Ppos by (simp add: field_simps)
  then have "\<bar>of_int m * P - q\<bar> = \<bar>of_int m - q / P\<bar> * P"
    using Ppos by (simp only: abs_mult abs_of_pos)
  also have "\<dots> \<le> 1 / 2 * P"
    using near Ppos by (simp add: mult_right_mono)
  finally have err: "\<bar>of_int m * P - q\<bar> \<le> P / 2" by simp
  have lower: "(2::rat) powi e \<le> q"
    unfolding e_def q_def by (rule floor_log2_lower [OF apos d])
  have Pmax: "P \<le> max (q / 2 ^ 52) (2 powi (- 1074))"
  proof (cases "- 1074 \<le> e - 52")
    case True
    then have "P = 2 powi (e - 52)" by (simp add: P_def p_def)
    also have "\<dots> = 2 powi e / 2 ^ 52"
      by (simp add: power_int_diff)
    also have "\<dots> \<le> q / 2 ^ 52"
      using lower by (simp add: divide_right_mono)
    finally show ?thesis by simp
  next
    case False
    then have "P = 2 powi (- 1074)" by (simp add: P_def p_def)
    then show ?thesis by simp
  qed
  show thesis
    using that [of m p] m0 err Pmax rf by (simp add: P_def q_def a_def)
qed

lemma round_fraction_finite:
  assumes d: "0 < d" and small: "\<bar>of_int n / of_int d :: rat\<bar> < 2 ^ 1023"
  shows "\<exists>m p. round_fraction n d = Finite m p"
proof (cases "n = 0")
  case True
  then show ?thesis by (simp add: round_fraction_def)
next
  case False
  define q :: rat where "q = of_int \<bar>n\<bar> / of_int d"
  have q: "q < 2 ^ 1023" "0 \<le> q"
    using small d by (simp_all add: q_def abs_if split: if_splits)
  from round_fraction_core [OF d False] obtain m p where
    m0: "0 \<le> m" and err: "\<bar>of_int m * 2 powi p - q\<bar> \<le> 2 powi p / 2"
    and Pmax: "(2::rat) powi p \<le> max (q / 2 ^ 52) (2 powi (- 1074))"
    and rf: "round_fraction n d =
       (if 0 \<le> p \<and> 2 ^ 1024 \<le> m * 2 ^ nat p then (if 0 < n then PosInf else NegInf)
        else Finite (if 0 < n then m else - m) p)"
    unfolding q_def by blast
  have "\<not> (0 \<le> p \<and> 2 ^ 1024 \<le> m * 2 ^ nat p)"
  proof
    assume ov: "0 \<le> p \<and> 2 ^ 1024 \<le> m * 2 ^ nat p"
    then have p0: "0 \<le> p" by simp
    have "(2::rat) powi (- 1074) < 1"
      using power_int_strict_increasing [of "- 1074" 0 "2::rat"] by simp
    moreover have "(1::rat) \<le> 2 powi p"
      using p0 by simp
    ultimately have P52: "(2::rat) powi p \<le> q / 2 ^ 52"
      using Pmax by (simp add: max_def split: if_splits)
    have "(of_int (2 ^ 1024) :: rat) \<le> of_int (m * 2 ^ nat p)"
      using ov by (simp only: of_int_le_iff)
    then have "(2::rat) ^ 1024 \<le> of_int m * 2 powi p"
      using p0 by (simp add: power_int_def)
    also have "\<dots> \<le> q + 2 powi p / 2"
      using err by linarith
    also have "\<dots> \<le> q + q"
      using P52 q(2) by (simp add: field_simps) 
    also have "\<dots> < 2 ^ 1023 + 2 ^ 1023"
      using q(1) by simp
    finally show False by simp
  qed
  with rf show ?thesis by simp
qed

lemma round_fraction_error:
  assumes d: "0 < d" and fin: "round_fraction n d = Finite m p"
  shows "\<bar>fval (Finite m p) - (of_int n / of_int d :: rat)\<bar>
         \<le> max (\<bar>of_int n / of_int d\<bar> / 2 ^ 53) (2 powi (- 1075))"
proof (cases "n = 0")
  case True
  with fin have "m = 0" by (simp add: round_fraction_def)
  with True show ?thesis by (simp add: fval_Finite)
next
  case False
  define q :: rat where "q = of_int \<bar>n\<bar> / of_int d"
  from round_fraction_core [OF d False] obtain m' p' where
    err: "\<bar>of_int m' * 2 powi p' - q\<bar> \<le> 2 powi p' / 2"
    and Pmax: "(2::rat) powi p' \<le> max (q / 2 ^ 52) (2 powi (- 1074))"
    and rf: "round_fraction n d =
       (if 0 \<le> p' \<and> 2 ^ 1024 \<le> m' * 2 ^ nat p' then (if 0 < n then PosInf else NegInf)
        else Finite (if 0 < n then m' else - m') p')"
    unfolding q_def by blast
  from rf fin have mp: "m = (if 0 < n then m' else - m')" "p = p'"
    by (auto split: if_splits)
  have absq: "\<bar>of_int n / of_int d :: rat\<bar> = q"
    using d by (simp add: q_def)
  have half: "(2::rat) powi p' / 2 \<le> max (q / 2 ^ 53) (2 powi (- 1075))"
  proof -
    have "(2::rat) powi p' / 2 \<le> max (q / 2 ^ 52) (2 powi (- 1074)) / 2"
      using Pmax by (simp add: divide_right_mono)
    also have "\<dots> = max (q / 2 ^ 52 / 2) (2 powi (- 1074) / 2)"
      by (simp add: max_def)
    also have "q / 2 ^ 52 / 2 = q / 2 ^ 53" by simp
    also have "(2::rat) powi (- 1074) / 2 = 2 powi (- 1075)"
      using power_int_diff [of "2::rat" "- 1074" 1] by simp
    finally show ?thesis .
  qed
  have "\<bar>fval (Finite m p) - (of_int n / of_int d :: rat)\<bar> = \<bar>of_int m' * 2 powi p' - q\<bar>"
  proof (cases "0 < n")
    case True
    then show ?thesis by (simp add: fval_Finite mp q_def)
  next
    case neg: False
    with False have "n < 0" by simp
    then have "(of_int n / of_int d :: rat) = - q"
      by (simp add: q_def)
    moreover have "fval (Finite m p) = - (of_int m' * 2 powi p')"
      using neg by (simp add: fval_Finite mp)
    ultimately show ?thesis
      by (simp add: abs_minus_commute)
  qed
  with err half show ?thesis
    unfolding absq by linarith
qed

lemma round_scaled_fraction:
  "\<exists>n' d'. 0 < d' \<and> round_scaled n p = round_fraction n' d' \<and>
           (of_int n' / of_int d' :: rat) = of_int n * 2 powi p"
proof (cases "0 \<le> p")
  case True
  then have "round_scaled n p = round_fraction (n * 2 ^ nat p) 1"
    by (simp add: round_scaled_def)
  moreover have "(of_int (n * 2 ^ nat p) / of_int 1 :: rat) = of_int n * 2 powi p"
    using True by (simp add: power_int_def)
  ultimately show ?thesis
    by (metis zero_less_one)
next
  case False
  then have "round_scaled n p = round_fraction n (2 ^ nat (- p))"
    by (simp add: round_scaled_def)
  moreover have "(of_int n / of_int (2 ^ nat (- p)) :: rat) = of_int n * 2 powi p"
    using False by (simp add: power_int_def field_simps)
  moreover have "(0::int) < 2 ^ nat (- p)" by simp
  ultimately show ?thesis
    by blast
qed

lemma round_scaled_finite:
  assumes "\<bar>of_int n * 2 powi p :: rat\<bar> < 2 ^ 1023"
  shows "\<exists>m' p'. round_scaled n p = Finite m' p'"
proof -
  obtain n' d' where "0 < d'" "round_scaled n p = round_fraction n' d'"
    "(of_int n' / of_int d' :: rat) = of_int n * 2 powi p"
    using round_scaled_fraction by blast
  with assms round_fraction_finite [of d' n'] show ?thesis by simp
qed

lemma round_scaled_error:
  assumes "round_scaled n p = Finite m' p'"
  shows "\<bar>fval (Finite m' p') - (of_int n * 2 powi p :: rat)\<bar>
         \<le> max (\<bar>of_int n * 2 powi p\<bar> / 2 ^ 53) (2 powi (- 1075))"
proof -
  obtain n' d' where "0 < d'" "round_scaled n p = round_fraction n' d'"
    "(of_int n' / of_int d' :: rat) = of_int n * 2 powi p"
    using round_scaled_fraction by blast
  with assms round_fraction_error [of d' n' m' p'] show ?thesis by simp
qed

lemma py_round_error:
  "\<exists>r. py_round (Finite m p) = Inr r \<and> \<bar>of_int r - fval (Finite m p)\<bar> \<le> 1 / 2"
proof (cases "0 \<le> p")
  case True
  then show ?thesis by (simp add: fval.simps)
next
  case False
  then have "py_round (Finite m p) = Inr (rhe_div m (2 ^ nat (- p)))" by simp
  moreover have "\<bar>of_int (rhe_div m (2 ^ nat (- p))) - fval (Finite m p)\<bar> \<le> 1 / 2"
    using False rhe_div_error_rat [of "2 ^ nat (- p)" m] by (simp add: fval.simps)
  ultimately show ?thesis by blast
qed

lemma py_round_near:
  assumes "\<bar>fval (Finite m p) - of_int k\<bar> < 1 / 2"
  shows "py_round (Finite m p) = Inr k"
proof -
  obtain r where r: "py_round (Finite m p) = Inr r" "\<bar>of_int r - fval (Finite m p)\<bar> \<le> 1 / 2"
    using py_round_error by blast
  with assms have "\<bar>(of_int r :: rat) - of_int k\<bar> < 1" by linarith
  then have "\<bar>(of_int (r - k) :: rat)\<bar> < of_int 1" by simp
  then have "\<bar>r - k\<bar> < 1" by (simp only: of_int_abs [symmetric] of_int_less_iff)
  with r(1) show ?thesis by simp
qed

lemma tiny_le: "(2::rat) powi (- 1075) \<le> 1 / 2 ^ 56"
proof -
  have "(2::rat) powi (- 1075) \<le> 2 powi (- 56)"
    by (rule power_int_increasing) simp_all
  also have "\<dots> = 1 / 2 ^ 56"
    by (simp add: power_int_minus_divide)
  finally show ?thesis .
qed

lemma true_div_fraction:
  assumes "N \<noteq> 0"
  shows "0 < \<bar>N\<bar>" and "(of_int (c * sgn N) / of_int \<bar>N\<bar> :: rat) = of_int c / of_int N"
  using assms by (auto simp: sgn_if abs_if)

lemma percentage_steps:
  assumes N: "N \<noteq> 0" and c: "\<bar>of_int c / of_int N :: rat\<bar> < 2 ^ 1000"
  obtains m1 p1 m2 p2 where
    "true_div c N = Inr (Finite m1 p1)"
    "\<bar>fval (Finite m1 p1) - (of_int c / of_int N :: rat)\<bar>
       \<le> max (\<bar>of_int c / of_int N\<bar> / 2 ^ 53) (2 powi (- 1075))"
    "fmul (Finite m1 p1) (Finite 100 0) = Finite m2 p2"
    "\<bar>fval (Finite m2 p2) - 100 * fval (Finite m1 p1)\<bar>
       \<le> max (\<bar>100 * fval (Finite m1 p1)\<bar> / 2 ^ 53) (2 powi (- 1075))"
    "percentage c N = py_round (Finite m2 p2)"
proof -
  define x :: rat where "x = of_int c / of_int N"
  note frac = true_div_fraction(1) [OF N] true_div_fraction(2) [OF N, of c]
  have "\<bar>of_int (c * sgn N) / of_int \<bar>N\<bar> :: rat\<bar> < 2 ^ 1023"
  proof -
    have "\<bar>x\<bar> < 2 ^ 1000" using c by (simp add: x_def)
    also have "(2::rat) ^ 1000 \<le> 2 ^ 1023" by (rule power_increasing) simp_all
    finally show ?thesis by (simp only: frac(2) x_def)
  qed
  from round_fraction_finite [OF frac(1) this] obtain m1 p1
    where rf: "round_fraction (c * sgn N) \<bar>N\<bar> = Finite m1 p1" by blast
  then have td: "true_div c N = Inr (Finite m1 p1)"
    using N by (simp add: true_div_def)
  have e1: "\<bar>fval (Finite m1 p1) - x\<bar> \<le> max (\<bar>x\<bar> / 2 ^ 53) (2 powi (- 1075))"
    using round_fraction_error [OF frac(1) rf] by (simp only: frac(2) x_def)
  define v where "v = fval (Finite m1 p1)"
  have prod: "(of_int (m1 * 100) * 2 powi (p1 + 0) :: rat) = 100 * v"
    by (simp add: v_def fval_Finite)
  have "\<bar>v\<bar> \<le> \<bar>x\<bar> + max (\<bar>x\<bar> / 2 ^ 53) (2 powi (- 1075))"
    using e1 unfolding v_def by linarith
  moreover have "\<bar>x\<bar> < 2 ^ 1000" using c by (simp add: x_def)
  moreover note tiny_le
  ultimately have "\<bar>100 * v\<bar> < 2 ^ 1023"
    by (simp add: max_def abs_if split: if_splits)
  then have "\<bar>of_int (m1 * 100) * 2 powi (p1 + 0) :: rat\<bar> < 2 ^ 1023"
    by (simp only: prod)
  from round_scaled_finite [OF this] obtain m2 p2
    where rs: "round_scaled (m1 * 100) (p1 + 0) = Finite m2 p2" by blast
  have fm: "fmul (Finite m1 p1) (Finite 100 0) = Finite m2 p2"
    using rs by simp
  have e2: "\<bar>fval (Finite m2 p2) - 100 * v\<bar> \<le> max (\<bar>100 * v\<bar> / 2 ^ 53) (2 powi (- 1075))"
    using round_scaled_error [OF rs] by (simp only: prod)
  have "percentage c N = py_round (Finite m2 p2)"
    by (simp only: percentage_def td fm sum.case)
  with td e1 fm e2 that show thesis
    unfolding v_def x_def by blast
qed

lemma percentage_returns:
  assumes "N \<noteq> 0" and "\<bar>c\<bar> < 2 ^ 1000"
  shows "\<exists>p. percentage c N = Inr p"
proof -
  have "\<bar>of_int c / of_int N :: rat\<bar> \<le> \<bar>of_int c\<bar>"
  proof -
    have "1 \<le> \<bar>N\<bar>" using assms(1) by simp
    then have "(1::rat) \<le> \<bar>of_int N\<bar>" by (metis of_int_1 of_int_abs of_int_le_iff)
    then have "\<bar>of_int c :: rat\<bar> / \<bar>of_int N\<bar> \<le> \<bar>of_int c\<bar> / 1"
      by (intro divide_left_mono) simp_all
    then show ?thesis by simp
  qed
  also have "\<dots> < 2 ^ 1000"
  proof -
    have "(of_int \<bar>c\<bar> :: rat) < of_int (2 ^ 1000)"
      using assms(2) by (simp only: of_int_less_iff)
    then show ?thesis by simp
  qed
  finally have "\<bar>of_int c / of_int N :: rat\<bar> < 2 ^ 1000" .
  from percentage_steps [OF assms(1) this] obtain m2 p2
    where "percentage c N = py_round (Finite m2 p2)" by metis
  then show ?thesis by simp
qed

lemma percentage_of_five:
  assumes "0 \<le> c" and "c < 2 ^ 46"
  shows "percentage c 5 = Inr (20 * c)"
proof (cases "c = 0")
  case True
  then show ?thesis
    by (simp add: percentage_def true_div_def round_fraction_def round_scaled_def)
next
  case False
  define C :: rat where "C = of_int c"
  have C: "1 \<le> C" "C < 2 ^ 46"
  proof -
    have "1 \<le> c" using assms(1) False by simp
    then show "1 \<le> C" unfolding C_def by (metis of_int_1 of_int_le_iff)
    have "(of_int c :: rat) < of_int (2 ^ 46)"
      using assms(2) by (simp only: of_int_less_iff)
    then show "C < 2 ^ 46" by (simp add: C_def)
  qed
  have small: "\<bar>of_int c / of_int 5 :: rat\<bar> < 2 ^ 1000"
  proof -
    have "\<bar>of_int c / of_int 5 :: rat\<bar> \<le> C" using C(1) by (simp add: C_def)
    also have "C < 2 ^ 46" by (rule C(2))
    also have "(2::rat) ^ 46 \<le> 2 ^ 1000" by (rule power_increasing) simp_all
    finally show ?thesis .
  qed
  from percentage_steps [of 5 c, OF _ small] obtain m1 p1 m2 p2 where
    e1: "\<bar>fval (Finite m1 p1) - (of_int c / of_int 5 :: rat)\<bar>
       \<le> max (\<bar>of_int c / of_int 5\<bar> / 2 ^ 53) (2 powi (- 1075))"
    and e2: "\<bar>fval (Finite m2 p2) - 100 * fval (Finite m1 p1)\<bar>
       \<le> max (\<bar>100 * fval (Finite m1 p1)\<bar> / 2 ^ 53) (2 powi (- 1075))"
    and pc: "percentage c 5 = py_round (Finite m2 p2)"
    by (metis zero_neq_numeral)
  define v1 where "v1 = fval (Finite m1 p1)"
  define v2 where "v2 = fval (Finite m2 p2)"
  have e1': "\<bar>v1 - C / 5\<bar> \<le> C / 5 / 2 ^ 53"
    using e1 C(1) tiny_le by (simp add: v1_def C_def max_def split: if_splits)
  have K: "(2::rat) ^ 53 = 9007199254740992" by simp
  have v1b: "\<bar>100 * v1\<bar> \<le> 40 * C"
    using e1' C(1) unfolding K by linarith
  have e2': "\<bar>v2 - 100 * v1\<bar> \<le> 40 * C / 2 ^ 53"
  proof -
    have "\<bar>100 * v1\<bar> / 2 ^ 53 \<le> 40 * C / 2 ^ 53"
      using v1b by (simp add: divide_right_mono)
    moreover have "(2::rat) powi (- 1075) \<le> 40 * C / 2 ^ 53"
      using tiny_le C(1) by (simp add: field_simps)
    ultimately show ?thesis
      using e2 unfolding v1_def v2_def by (simp add: max_def split: if_splits)
  qed
  have "\<bar>v2 - 20 * C\<bar> \<le> 60 * C / 2 ^ 53"
    using e1' e2' unfolding K by linarith
  also have "\<dots> < 1 / 2"
    using C(2) by simp
  finally have "\<bar>fval (Finite m2 p2) - of_int (20 * c)\<bar> < 1 / 2"
    by (simp add: v2_def C_def)
  from py_round_near [OF this] pc show ?thesis by simp
qed

section \<open>What a run of the script does\<close>

lemma get_supplement_information_eq:
  assumes "debug_mode s = Some d"
  shows "get_supplement_information client info s =
           (reply_supplements (client (length (api_calls s)) (make_prompt info)),
            s\<lparr>api_calls := api_calls s @ [make_prompt info],
              page := page s @ fetch_events d (client (length (api_calls s)) (make_prompt info))\<rparr>)"
  using assms
  by (simp add: get_supplement_information_def reply_supplements_def fetch_events_def
      fetch_failed_def st_emit_def Let_def split: sum.splits)

lemma get_supplement_information_failed:
  assumes "client (length (api_calls s)) (make_prompt info) = Inl e \<or>
           (\<exists>content e'. client (length (api_calls s)) (make_prompt info) = Inr content \<and>
                          parse_supplement_list content = Inl e')"
  shows "fst (get_supplement_information client info s) = []"
  using assms
  by (auto simp: get_supplement_information_def fetch_failed_def Let_def split: sum.splits option.splits)

lemma replies_Suc:
  "replies client info s (Suc n) =
     client (length (api_calls s)) (make_prompt info) #
     replies client info (s\<lparr>api_calls := api_calls s @ [make_prompt info], page := pg\<rparr>) n"
proof -
  have "[0..<Suc n] = 0 # map Suc [0..<n]"
    by (metis upt_conv_Cons map_Suc_upt zero_less_Suc)
  then show ?thesis
    by (simp add: replies_def o_def del: upt_Suc)
qed

lemma query_loop_eq:
  assumes "debug_mode s = Some d"
  shows "query_loop client info n acc s =
           (Inr (acc @ collected client info s n),
            s\<lparr>api_calls := api_calls s @ replicate n (make_prompt info),
              page := page s @ loop_events d (replies client info s n)\<rparr>)"
  using assms
proof (induction n arbitrary: acc s)
  case 0
  then show ?case
    by (simp add: collected_def replies_def loop_events_def)
next
  case (Suc n)
  let ?r = "client (length (api_calls s)) (make_prompt info)"
  let ?s1 = "s\<lparr>api_calls := api_calls s @ [make_prompt info], page := page s @ fetch_events d ?r\<rparr>"
  let ?s2 = "if d then st_emit (DebugWrite (ApiResponse (reply_supplements ?r))) ?s1 else ?s1"
  have dm: "debug_mode ?s2 = Some d"
    using Suc.prems by (simp add: st_emit_def)
  have calls: "api_calls ?s2 = api_calls s @ [make_prompt info]"
    by (simp add: st_emit_def)
  have rep: "replies client info s (Suc n) = ?r # replies client info ?s2 n"
    using replies_Suc [of client info s n "page ?s2"]
    by (simp add: replies_def calls)
  have step: "query_loop client info (Suc n) acc s =
              query_loop client info n (acc @ reply_supplements ?r) ?s2"
    using Suc.prems by (simp add: get_supplement_information_eq [OF Suc.prems])
  show ?case
    unfolding step Suc.IH [OF dm] rep
    by (simp add: collected_def rep calls loop_events_def st_emit_def replicate_append_same)
qed

lemma show_results_eq:
  assumes "debug_mode s = Some d"
  shows "show_results all_supplements s =
           (results_exn all_supplements, s\<lparr>page := page s @ results_events d all_supplements\<rparr>)"
  using assms
  by (simp add: show_results_def results_exn_def results_events_def st_emit_def Let_def
      split: sum.splits)

lemma on_button_eq:
  assumes "debug_mode s = Some d"
  shows "on_button client info s =
           (results_exn (collected client info s num_queries),
            s\<lparr>api_calls := api_calls s @ replicate num_queries (make_prompt info),
              page := page s @ loop_events d (replies client info s num_queries) @
                      results_events d (collected client info s num_queries) @
                      (if results_exn (collected client info s num_queries) = None
                       then [Caption disclaimer_text] else [])\<rparr>)"
proof -
  let ?s1 = "s\<lparr>api_calls := api_calls s @ replicate num_queries (make_prompt info),
               page := page s @ loop_events d (replies client info s num_queries)\<rparr>"
  have dm: "debug_mode ?s1 = Some d" using assms by simp
  show ?thesis
    by (cases "results_exn (collected client info s num_queries)")
       (simp_all add: on_button_def query_loop_eq [OF assms] show_results_eq [OF dm] st_emit_def)
qed

lemma replies_cong: "api_calls s' = api_calls s \<Longrightarrow> replies client info s' n = replies client info s n"
  by (simp add: replies_def)

lemma collected_cong: "api_calls s' = api_calls s \<Longrightarrow> collected client info s' n = collected client info s n"
  by (simp add: collected_def replies_def)

lemma script_run_pressed:
  fixes client :: api
  assumes pressed: "button inp" and dm: "debug_mode s = Some d"
    and mv: "metric_values inp = Inr (weight, height)"
    and info: "info = user_info inp weight height"
    and rs: "rs = replies client info s num_queries"
    and coll: "all_supplements = collected client info s num_queries"
  shows "script_run client inp s =
           (results_exn all_supplements,
            \<lparr>debug_mode = (if results_exn all_supplements = None then Some (debug_checkbox inp) else Some d),
             api_calls = api_calls s @ replicate num_queries (make_prompt info),
             page = [Title title_text, Write intro_text] @ loop_events d rs @
                    results_events d all_supplements @
                    (if results_exn all_supplements = None
                     then [Caption disclaimer_text, SidebarTitle (u ''About''), SidebarInfo about_text]
                     else [])\<rparr>)"
proof -
  define s1 where "s1 = s\<lparr>page := [Title title_text, Write intro_text]\<rparr>"
  have dm1: "debug_mode s1 = Some d" using dm by (simp add: s1_def)
  have calls: "api_calls s1 = api_calls s" by (simp add: s1_def)
  have pg: "page s1 = [Title title_text, Write intro_text]" by (simp add: s1_def)
  have start: "st_emit (Write intro_text) (st_emit (Title title_text) (s\<lparr>page := []\<rparr>)) = s1"
    by (simp add: st_emit_def s1_def)
  have ob: "on_button client info s1 =
           (results_exn all_supplements,
            s1\<lparr>api_calls := api_calls s @ replicate num_queries (make_prompt info),
               page := [Title title_text, Write intro_text] @ loop_events d rs @
                      results_events d all_supplements @
                      (if results_exn all_supplements = None then [Caption disclaimer_text] else [])\<rparr>)"
    unfolding on_button_eq [OF dm1] replies_cong [OF calls] collected_cong [OF calls] calls pg rs coll
    by (rule refl)
  have run: "script_run client inp s =
        (case on_button client info s1 of
           (Some e, s2) \<Rightarrow> (Some e, s2)
         | (None, s2) \<Rightarrow> (None, sidebar inp s2))"
    using pressed mv by (simp only: script_run_def main_def Let_def start sum.case prod.case if_True info)
  show ?thesis
  proof (cases "results_exn all_supplements")
    case None
    then show ?thesis
      unfolding run ob using dm by (simp add: sidebar_def st_emit_def s1_def Let_def)
  next
    case (Some e)
    then show ?thesis
      unfolding run ob using dm by (simp add: s1_def)
  qed
qed

lemma script_run_not_pressed:
  assumes "\<not> button inp" and "metric_values inp = Inr (weight, height)"
  shows "script_run client inp s =
           (None, \<lparr>debug_mode = Some (debug_checkbox inp), api_calls = api_calls s,
                   page = [Title title_text, Write intro_text, SidebarTitle (u ''About''), SidebarInfo about_text]\<rparr>)"
  using assms by (simp add: script_run_def main_def Let_def sidebar_def st_emit_def)

section \<open>The counts and the chart\<close>

text \<open>
  C2. For every sequence \<open>ls\<close> of per-query supplement lists, the count that \<open>Counter\<close>
  records for a name in the concatenation of the lists (which is what \<open>main\<close> counts, see
  \<open>query_loop_eq\<close> and \<open>collected_def\<close>) is the number of times that exact string occurs in
  it: names are compared as they are, code point by code point, so no two different strings
  share an entry, and every string that occurs has one entry.
\<close>

theorem counter_counts_occurrences:
  "map_of (Counter (concat ls)) name =
     (if name \<in> set (concat ls) then Some (int (count_list (concat ls) name)) else None) \<and>
   distinct (map fst (Counter (concat ls))) \<and>
   fst ` set (Counter (concat ls)) = set (concat ls)"
  by (simp add: Counter_lookup Counter_distinct Counter_keys)

lemma counter_example:
  "Counter (concat [[u ''Zinc'', u ''zinc''], [u ''Zinc'', u ''Zinc oxide'']]) =
     [(u ''Zinc'', 2), (u ''zinc'', 1), (u ''Zinc oxide'', 1)]"
  by (simp add: Counter_def u_def)

text \<open>
  C4. For a count map that is not empty (and counts for which the percentages have values,
  \<open>pcts\<close>), \<open>create_supplement_chart\<close> returns a chart whose bars are a permutation of the
  (supplement, percentage) pairs, in non-increasing order of percentage; the bars are
  horizontal, and each is labelled with its percentage followed by a percent sign.
\<close>

theorem chart_bars_sorted:
  assumes "counts \<noteq> []" and "percentages (map snd counts) N = Inr pcts"
  shows "\<exists>fig. create_supplement_chart counts N = Inr fig \<and>
           mset (bars fig) = mset (zip (map fst counts) pcts) \<and>
           sorted_wrt (\<ge>) (map snd (bars fig)) \<and>
           fig_x fig = map snd (bars fig) \<and>
           fig_y fig = map fst (bars fig) \<and>
           fig_orientation fig = u ''h'' \<and>
           fig_text fig = map (\<lambda>p. str_int p @ u ''%'') (fig_x fig)"
proof -
  from create_supplement_chart_returns [OF assms] obtain fig
    where fig: "create_supplement_chart counts N = Inr fig" by blast
  from create_supplement_chart_Inr [OF fig] obtain pcts' where
    p: "percentages (map snd counts) N = Inr pcts'"
    and b: "bars fig = py_sorted_desc snd (zip (map fst counts) pcts')"
    and rest: "fig_x fig = map snd (bars fig)" "fig_y fig = map fst (bars fig)"
      "fig_text fig = map (\<lambda>p. str_int p @ u ''%'') (fig_x fig)" "fig_orientation fig = u ''h''"
    by blast
  from p assms(2) have same: "pcts' = pcts" by simp
  have "mset (bars fig) = mset (zip (map fst counts) pcts)"
    by (simp add: b same mset_py_sorted_desc)
  moreover have "sorted_wrt (\<ge>) (map snd (bars fig))"
    unfolding b by (rule sorted_py_sorted_desc)
  ultimately show ?thesis
    using fig rest by blast
qed

lemma percentages_example: "percentages [1, 3, 3] 5 = Inr [20, 60, 60]"
  by (simp add: percentage_of_five)

lemma chart_example:
  "create_supplement_chart [(u ''Zinc'', 1), (u ''Iron'', 3), (u ''Magnesium'', 3)] 5 =
     Inr \<lparr>fig_x = [60, 60, 20],
          fig_y = [u ''Iron'', u ''Magnesium'', u ''Zinc''],
          fig_orientation = u ''h'',
          fig_text = [u ''60%'', u ''60%'', u ''20%''],
          fig_textposition = u ''inside'',
          fig_insidetextanchor = u ''end'',
          fig_textfont_color = u ''white'',
          fig_marker_color = u ''#1f77b4'',
          fig_xaxis_title = u ''Percentage of Queries (%)'',
          fig_yaxis_title = [],
          fig_xaxis_range = (0, 100),
          fig_xaxis_dtick = 20,
          fig_height = 460,
          fig_margin = (0, 10, 30, 0),
          fig_yaxis_autorange = u ''reversed''\<rparr>"
  by (simp add: create_supplement_chart_def percentage_of_five py_sorted_desc_def str_int_def u_def)

theorem chart_bars_sorted_witness:
  "[(u ''Zinc'', 1), (u ''Iron'', 3), (u ''Magnesium'', 3)] \<noteq> [] \<and>
   percentages (map snd [(u ''Zinc'', 1), (u ''Iron'', 3), (u ''Magnesium'', 3)]) 5 = Inr [20, 60, 60] \<and>
   (\<exists>fig. create_supplement_chart [(u ''Zinc'', 1), (u ''Iron'', 3), (u ''Magnesium'', 3)] 5 = Inr fig \<and>
          bars fig = [(u ''Iron'', 60), (u ''Magnesium'', 60), (u ''Zinc'', 20)] \<and>
          sorted_wrt (\<ge>) (map snd (bars fig)) \<and>
          fig_text fig = [u ''60%'', u ''60%'', u ''20%''])"
proof -
  have ne: "[(u ''Zinc'', 1), (u ''Iron'', 3), (u ''Magnesium'', 3 :: int)] \<noteq> []" by simp
  have pc: "percentages (map snd [(u ''Zinc'', 1), (u ''Iron'', 3), (u ''Magnesium'', 3)]) 5 = Inr [20, 60, 60]"
    by (simp add: percentage_of_five)
  from chart_bars_sorted [OF ne pc] obtain fig where
    fig: "create_supplement_chart [(u ''Zinc'', 1), (u ''Iron'', 3), (u ''Magnesium'', 3)] 5 = Inr fig"
    and srt: "sorted_wrt (\<ge>) (map snd (bars fig))"
    by blast
  from fig have "bars fig = [(u ''Iron'', 60), (u ''Magnesium'', 60), (u ''Zinc'', 20)]"
    and "fig_text fig = [u ''60%'', u ''60%'', u ''20%'']"
    by (auto simp: chart_example bars_def)
  with ne pc fig srt show ?thesis by blast
qed

lemma chart_bars_set:
  assumes fig: "create_supplement_chart counts N = Inr fig"
  shows "(s, p) \<in> set (bars fig) \<longleftrightarrow>
         (\<exists>i < length counts. fst (counts ! i) = s \<and> percentage (snd (counts ! i)) N = Inr p)"
    and "mset (map fst (bars fig)) = mset (map fst counts)"
proof -
  from create_supplement_chart_Inr [OF fig] obtain pcts where
    p: "percentages (map snd counts) N = Inr pcts"
    and b: "bars fig = py_sorted_desc snd (zip (map fst counts) pcts)"
    by blast
  have all2: "list_all2 (\<lambda>c p. percentage c N = Inr p) (map snd counts) pcts"
    using p by (simp add: percentages_all2)
  then have len: "length pcts = length counts"
    by (simp add: list_all2_lengthD [symmetric])
  have nth: "\<And>i. i < length counts \<Longrightarrow> percentage (snd (counts ! i)) N = Inr (pcts ! i)"
    using list_all2_nthD [OF all2] by simp
  have "(s, p) \<in> set (bars fig) \<longleftrightarrow> (s, p) \<in> set (zip (map fst counts) pcts)"
    by (simp add: b set_py_sorted_desc)
  also have "\<dots> \<longleftrightarrow> (\<exists>i < length counts. fst (counts ! i) = s \<and> pcts ! i = p)"
  proof
    assume "(s, p) \<in> set (zip (map fst counts) pcts)"
    then obtain i where "i < length counts" "map fst counts ! i = s" "pcts ! i = p"
      using len by (auto simp: in_set_zip)
    then show "\<exists>i < length counts. fst (counts ! i) = s \<and> pcts ! i = p"
      by auto
  next
    assume "\<exists>i < length counts. fst (counts ! i) = s \<and> pcts ! i = p"
    then obtain i where i: "i < length counts" "fst (counts ! i) = s" "pcts ! i = p"
      by blast
    then have "map fst counts ! i = fst (s, p) \<and> pcts ! i = snd (s, p) \<and>
               i < length (map fst counts) \<and> i < length pcts"
      using len by simp
    then show "(s, p) \<in> set (zip (map fst counts) pcts)"
      unfolding in_set_zip by blast
  qed
  also have "\<dots> \<longleftrightarrow> (\<exists>i < length counts. fst (counts ! i) = s \<and> percentage (snd (counts ! i)) N = Inr p)"
    using nth by auto
  finally show "(s, p) \<in> set (bars fig) \<longleftrightarrow>
         (\<exists>i < length counts. fst (counts ! i) = s \<and> percentage (snd (counts ! i)) N = Inr p)" .
  have "mset (map fst (bars fig)) = image_mset fst (mset (zip (map fst counts) pcts))"
    by (simp add: b mset_py_sorted_desc)
  also have "\<dots> = mset (map fst (zip (map fst counts) pcts))"
    by simp
  also have "map fst (zip (map fst counts) pcts) = map fst counts"
    using len by (simp add: map_fst_zip)
  finally show "mset (map fst (bars fig)) = mset (map fst counts)" .
qed

lemma chart_value_lookup:
  assumes fig: "create_supplement_chart counts N = Inr fig" and dist: "distinct (map fst counts)"
  shows "map_of (bars fig) s = Some p \<longleftrightarrow> (\<exists>c. (s, c) \<in> set counts \<and> percentage c N = Inr p)"
proof -
  have "distinct (map fst (bars fig))"
    using chart_bars_set(2) [OF fig] dist by (metis mset_eq_imp_distinct_iff)
  then have "map_of (bars fig) s = Some p \<longleftrightarrow> (s, p) \<in> set (bars fig)"
    by simp
  also have "\<dots> \<longleftrightarrow> (\<exists>i < length counts. fst (counts ! i) = s \<and> percentage (snd (counts ! i)) N = Inr p)"
    by (rule chart_bars_set(1) [OF fig])
  also have "\<dots> \<longleftrightarrow> (\<exists>c. (s, c) \<in> set counts \<and> percentage c N = Inr p)"
  proof
    assume "\<exists>i < length counts. fst (counts ! i) = s \<and> percentage (snd (counts ! i)) N = Inr p"
    then obtain i where "i < length counts" "fst (counts ! i) = s" "percentage (snd (counts ! i)) N = Inr p"
      by blast
    then have "(s, snd (counts ! i)) \<in> set counts \<and> percentage (snd (counts ! i)) N = Inr p"
      by (metis nth_mem prod.collapse)
    then show "\<exists>c. (s, c) \<in> set counts \<and> percentage c N = Inr p" by blast
  next
    assume "\<exists>c. (s, c) \<in> set counts \<and> percentage c N = Inr p"
    then obtain c where "(s, c) \<in> set counts" "percentage c N = Inr p" by blast
    then obtain i where "i < length counts" "counts ! i = (s, c)"
      by (auto simp: in_set_conv_nth)
    with \<open>percentage c N = Inr p\<close>
    show "\<exists>i < length counts. fst (counts ! i) = s \<and> percentage (snd (counts ! i)) N = Inr p"
      by auto
  qed
  finally show ?thesis .
qed

text \<open>
  C1. For every count map that is not empty (a dictionary: its keys are distinct) and every
  positive total \<open>N\<close>, \<open>create_supplement_chart\<close> returns a chart in which each supplement
  has the value \<open>round(count / N * 100)\<close> of its count, and no other supplement has a bar. The
  bound on the counts keeps \<open>count / N\<close> in the range of a float: beyond it the expression
  raises \<open>OverflowError\<close>, and so does the function.
\<close>

theorem chart_values:
  assumes "counts \<noteq> []" and "distinct (map fst counts)" and "0 < N"
    and "\<forall>c \<in> set (map snd counts). \<bar>c\<bar> < 2 ^ 1000"
  shows "\<exists>fig. create_supplement_chart counts N = Inr fig \<and>
           (\<forall>(s, c) \<in> set counts. \<exists>p. percentage c N = Inr p \<and> map_of (bars fig) s = Some p) \<and>
           fst ` set (bars fig) = fst ` set counts"
proof -
  have "\<forall>c \<in> set (map snd counts). \<exists>p. percentage c N = Inr p"
    using assms(3,4) percentage_returns [of N] by simp
  then obtain pcts where "percentages (map snd counts) N = Inr pcts"
    using percentages_returns [of "map snd counts" N] by blast
  from create_supplement_chart_returns [OF assms(1) this] obtain fig
    where fig: "create_supplement_chart counts N = Inr fig" by blast
  have "\<forall>(s, c) \<in> set counts. \<exists>p. percentage c N = Inr p \<and> map_of (bars fig) s = Some p"
  proof (clarify)
    fix s c assume sc: "(s, c) \<in> set counts"
    then have "\<bar>c\<bar> < 2 ^ 1000" using assms(4) by force
    then obtain p where p: "percentage c N = Inr p"
      using assms(3) percentage_returns [of N c] by auto
    with sc have "map_of (bars fig) s = Some p"
      using chart_value_lookup [OF fig assms(2), of s p] by blast
    with p show "\<exists>p. percentage c N = Inr p \<and> map_of (bars fig) s = Some p" by blast
  qed
  moreover have "fst ` set (bars fig) = fst ` set counts"
    using chart_bars_set(2) [OF fig] by (metis mset_eq_setD set_map)
  ultimately show ?thesis
    using fig by blast
qed

theorem chart_values_witness:
  "[(u ''Zinc'', 1), (u ''Iron'', 3), (u ''Magnesium'', 3)] \<noteq> [] \<and>
   distinct (map fst [(u ''Zinc'', 1 :: int), (u ''Iron'', 3), (u ''Magnesium'', 3)]) \<and>
   (0 :: int) < 5 \<and>
   \<bar>1 :: int\<bar> < 2 ^ 1000 \<and> \<bar>3 :: int\<bar> < 2 ^ 1000 \<and>
   (\<exists>fig. create_supplement_chart [(u ''Zinc'', 1), (u ''Iron'', 3), (u ''Magnesium'', 3)] 5 = Inr fig \<and>
          percentage 1 5 = Inr 20 \<and> map_of (bars fig) (u ''Zinc'') = Some 20 \<and>
          percentage 3 5 = Inr 60 \<and> map_of (bars fig) (u ''Iron'') = Some 60 \<and>
          map_of (bars fig) (u ''Magnesium'') = Some 60)"
proof -
  let ?counts = "[(u ''Zinc'', 1 :: int), (u ''Iron'', 3), (u ''Magnesium'', 3)]"
  have h1: "?counts \<noteq> []" by simp
  have h2: "distinct (map fst ?counts)" by (simp add: u_def)
  have h3: "(0 :: int) < 5" by simp
  have h4: "\<forall>c \<in> set (map snd ?counts). \<bar>c\<bar> < 2 ^ 1000" by simp
  from chart_values [OF h1 h2 h3 h4] obtain fig where
    fig: "create_supplement_chart ?counts 5 = Inr fig"
    and vals: "\<forall>(s, c) \<in> set ?counts. \<exists>p. percentage c 5 = Inr p \<and> map_of (bars fig) s = Some p"
    by blast
  have p: "percentage 1 5 = Inr 20" "percentage 3 5 = Inr 60"
    by (simp_all add: percentage_of_five)
  from vals p have "map_of (bars fig) (u ''Zinc'') = Some 20"
    "map_of (bars fig) (u ''Iron'') = Some 60" "map_of (bars fig) (u ''Magnesium'') = Some 60"
    by auto
  with h1 h2 fig p show ?thesis by simp
qed

section \<open>The page of a press of the button\<close>

lemma charts_append: "charts (xs @ ys) = charts xs @ charts ys"
  by (induction xs rule: charts.induct) simp_all

lemma charts_fetch_events: "charts (fetch_events d r) = []"
  by (simp add: fetch_events_def fetch_error_def split: sum.splits)

lemma charts_loop_events: "charts (loop_events d rs) = []"
  by (induction rs) (simp_all add: loop_events_def charts_append charts_fetch_events)

lemma charts_results_events:
  "charts (results_events d all_supplements) =
     (if all_supplements = [] then []
      else case create_supplement_chart (Counter all_supplements) (int num_queries) of
             Inl e \<Rightarrow> []
           | Inr fig \<Rightarrow> [fig])"
  by (simp add: results_events_def charts_append split: sum.splits)

lemma without_debug_Nil: "without_debug [] = []"
  by (simp add: without_debug_def)

lemma without_debug_Cons:
  "without_debug (e # es) = (if is_debug e then without_debug es else e # without_debug es)"
  by (simp add: without_debug_def)

lemma without_debug_append: "without_debug (xs @ ys) = without_debug xs @ without_debug ys"
  by (simp add: without_debug_def)

lemma without_debug_fetch_events: "without_debug (fetch_events d r) = fetch_events False r"
  by (simp add: fetch_events_def fetch_error_def without_debug_def split: sum.splits)

lemma without_debug_loop_events: "without_debug (loop_events d rs) = loop_events False rs"
  by (induction rs) (simp_all add: loop_events_def without_debug_append without_debug_fetch_events,
      simp_all add: without_debug_def)

lemma without_debug_results_events:
  "without_debug (results_events d all_supplements) = results_events False all_supplements"
  by (simp add: results_events_def without_debug_def split: sum.splits)

lemma charts_pressed_page:
  "charts ([Title title_text, Write intro_text] @ loop_events d rs @ results_events d all_supplements @
           (if c then [Caption disclaimer_text, SidebarTitle (u ''About''), SidebarInfo about_text] else []))
   = charts (results_events d all_supplements)"
  by (simp add: charts_append charts_loop_events)

lemma without_debug_pressed_page:
  "without_debug ([Title title_text, Write intro_text] @ loop_events d rs @ results_events d all_supplements @
           (if c then [Caption disclaimer_text, SidebarTitle (u ''About''), SidebarInfo about_text] else []))
   = [Title title_text, Write intro_text] @ loop_events False rs @ results_events False all_supplements @
           (if c then [Caption disclaimer_text, SidebarTitle (u ''About''), SidebarInfo about_text] else [])"
  by (simp add: without_debug_append without_debug_Cons without_debug_Nil
      without_debug_loop_events without_debug_results_events)

lemma pressed_charts:
  fixes client :: api
  assumes "button inp" and "debug_mode s = Some d" and "metric_values inp = Inr (weight, height)"
  shows "charts (page (snd (script_run client inp s))) =
           charts (results_events d (collected client (user_info inp weight height) s num_queries))"
  unfolding script_run_pressed [OF assms refl refl refl]
  by (simp only: snd_conv app_state.simps charts_pressed_page)

lemma pressed_without_debug:
  fixes client :: api
  assumes "button inp" and "debug_mode s = Some d" and "metric_values inp = Inr (weight, height)"
  shows "without_debug (page (snd (script_run client inp s))) =
           [Title title_text, Write intro_text] @
           loop_events False (replies client (user_info inp weight height) s num_queries) @
           results_events False (collected client (user_info inp weight height) s num_queries) @
           (if results_exn (collected client (user_info inp weight height) s num_queries) = None
            then [Caption disclaimer_text, SidebarTitle (u ''About''), SidebarInfo about_text] else [])"
  unfolding script_run_pressed [OF assms refl refl refl]
  by (simp only: snd_conv app_state.simps without_debug_pressed_page)

text \<open>
  C3. On a press of the button (in a session whose debug flag an earlier run has set, and with
  inputs for which the weight and the height have values), the run makes exactly 5 calls to the
  language model, each with the same prompt around the same user profile; and in the chart it
  shows, the value of a supplement is \<open>round(count / 5 * 100)\<close> of its count among the
  supplements collected: the denominator is that same number of queries.
\<close>

theorem press_sends_five_queries:
  fixes client :: api
  assumes "button inp" and "debug_mode s = Some d" and "metric_values inp = Inr (weight, height)"
  shows "api_calls (snd (script_run client inp s)) =
           api_calls s @ replicate 5 (make_prompt (user_info inp weight height)) \<and>
         (\<forall>fig \<in> set (charts (page (snd (script_run client inp s)))). \<forall>name p.
            (map_of (bars fig) name = Some p) =
            (name \<in> set (collected client (user_info inp weight height) s 5) \<and>
             percentage (int (count_list (collected client (user_info inp weight height) s 5) name)) 5 = Inr p))"
proof -
  let ?all = "collected client (user_info inp weight height) s num_queries"
  have five: "num_queries = 5" by (simp add: num_queries_def)
  have calls: "api_calls (snd (script_run client inp s)) =
           api_calls s @ replicate num_queries (make_prompt (user_info inp weight height))"
    unfolding script_run_pressed [OF assms refl refl refl] by simp
  have "\<forall>fig \<in> set (charts (page (snd (script_run client inp s)))). \<forall>name p.
            (map_of (bars fig) name = Some p) =
            (name \<in> set ?all \<and> percentage (int (count_list ?all name)) (int num_queries) = Inr p)"
  proof (intro ballI allI)
    fix fig name p
    assume "fig \<in> set (charts (page (snd (script_run client inp s))))"
    then have "fig \<in> set (charts (results_events d ?all))"
      by (simp only: pressed_charts [OF assms])
    then have fig: "create_supplement_chart (Counter ?all) (int num_queries) = Inr fig"
      by (auto simp: charts_results_events split: if_splits sum.splits)
    show "(map_of (bars fig) name = Some p) =
            (name \<in> set ?all \<and> percentage (int (count_list ?all name)) (int num_queries) = Inr p)"
      unfolding chart_value_lookup [OF fig Counter_distinct] Counter_entry by auto
  qed
  with calls show ?thesis
    by (simp add: five)
qed

lemma debug_off_page:
  fixes client :: api
  assumes "button inp" and "metric_values inp = Inr (weight, height)" and "debug_mode s = Some False"
  shows "without_debug (page (snd (script_run client inp s))) = page (snd (script_run client inp s))"
  unfolding pressed_without_debug [OF assms(1,3,2)]
  unfolding script_run_pressed [OF assms(1,3,2) refl refl refl]
  by simp

text \<open>
  C7. Two presses of the button with the same form inputs and the same responses of the
  language model end the same way (with the same exception or none), count the same, and show
  the same chart and, debug output apart, the same page, whatever the two sessions did before
  (their pages, the calls they made, their debug flags). With equal debug flags the whole pages
  are equal, and a page made with the flag off is the page made with the flag on without its
  debug output.
\<close>

theorem press_is_deterministic:
  fixes client1 client2 :: api
  assumes "button inp" and "metric_values inp = Inr (weight, height)"
    and "debug_mode s1 = Some d1" and "debug_mode s2 = Some d2"
    and "replies client1 (user_info inp weight height) s1 num_queries =
         replies client2 (user_info inp weight height) s2 num_queries"
  shows "fst (script_run client1 inp s1) = fst (script_run client2 inp s2) \<and>
         Counter (collected client1 (user_info inp weight height) s1 num_queries) =
         Counter (collected client2 (user_info inp weight height) s2 num_queries) \<and>
         charts (page (snd (script_run client1 inp s1))) = charts (page (snd (script_run client2 inp s2))) \<and>
         without_debug (page (snd (script_run client1 inp s1))) =
         without_debug (page (snd (script_run client2 inp s2))) \<and>
         (d1 = d2 \<longrightarrow> page (snd (script_run client1 inp s1)) = page (snd (script_run client2 inp s2))) \<and>
         (\<not> d2 \<longrightarrow> page (snd (script_run client2 inp s2)) = without_debug (page (snd (script_run client1 inp s1))))"
proof -
  let ?info = "user_info inp weight height"
  have coll: "collected client1 ?info s1 num_queries = collected client2 ?info s2 num_queries"
    using assms(5) by (simp add: collected_def)
  have r1: "fst (script_run client1 inp s1) = results_exn (collected client1 ?info s1 num_queries)"
    unfolding script_run_pressed [OF assms(1,3,2) refl refl refl] by simp
  have r2: "fst (script_run client2 inp s2) = results_exn (collected client2 ?info s2 num_queries)"
    unfolding script_run_pressed [OF assms(1,4,2) refl refl refl] by simp
  have c1: "charts (page (snd (script_run client1 inp s1))) =
            charts (results_events False (collected client1 ?info s1 num_queries))"
    unfolding pressed_charts [OF assms(1,3,2)] by (simp add: charts_results_events)
  have c2: "charts (page (snd (script_run client2 inp s2))) =
            charts (results_events False (collected client2 ?info s2 num_queries))"
    unfolding pressed_charts [OF assms(1,4,2)] by (simp add: charts_results_events)
  have w: "without_debug (page (snd (script_run client1 inp s1))) =
           without_debug (page (snd (script_run client2 inp s2)))"
    unfolding pressed_without_debug [OF assms(1,3,2)] pressed_without_debug [OF assms(1,4,2)]
    by (simp only: coll assms(5))
  have p: "d1 = d2 \<longrightarrow> page (snd (script_run client1 inp s1)) = page (snd (script_run client2 inp s2))"
    unfolding script_run_pressed [OF assms(1,3,2) refl refl refl]
      script_run_pressed [OF assms(1,4,2) refl refl refl]
    by (simp add: coll assms(5))
  have q: "\<not> d2 \<longrightarrow> page (snd (script_run client2 inp s2)) = without_debug (page (snd (script_run client1 inp s1)))"
    using debug_off_page [OF assms(1,2), of s2 client2] assms(4) w by simp
  from r1 r2 c1 c2 w p q coll show ?thesis
    by simp
qed

lemma get_supplement_information_reply_failed:
  assumes "reply_failed (client (length (api_calls s)) (make_prompt info))"
  shows "fst (get_supplement_information client info s) = []"
  using assms
  by (auto simp: reply_failed_def get_supplement_information_def fetch_failed_def Let_def
      split: sum.splits option.splits)

lemma count_list_le_length: "count_list xs x \<le> length xs"
  by (induction xs) auto

lemma results_exn_None:
  assumes "length all_supplements < 2 ^ 1000"
  shows "results_exn all_supplements = None"
proof (cases "all_supplements = []")
  case True
  then show ?thesis by (simp add: results_exn_def)
next
  case False
  then have ne: "Counter all_supplements \<noteq> []"
    by (simp add: Counter_empty_iff)
  have "\<forall>c \<in> set (map snd (Counter all_supplements)). \<bar>c\<bar> < 2 ^ 1000"
  proof
    fix c assume "c \<in> set (map snd (Counter all_supplements))"
    then obtain k where "(k, c) \<in> set (Counter all_supplements)" by auto
    then have c: "c = int (count_list all_supplements k)"
      by (simp add: Counter_entry)
    have "int (count_list all_supplements k) \<le> int (length all_supplements)"
      using count_list_le_length [of all_supplements k] by simp
    also have "\<dots> < 2 ^ 1000"
      using assms by (metis of_nat_less_iff of_nat_numeral of_nat_power)
    finally show "\<bar>c\<bar> < 2 ^ 1000" by (simp add: c)
  qed
  then have "\<forall>c \<in> set (map snd (Counter all_supplements)). \<exists>p. percentage c (int num_queries) = Inr p"
    using percentage_returns [of "int num_queries"] by (simp add: num_queries_def)
  then obtain pcts where "percentages (map snd (Counter all_supplements)) (int num_queries) = Inr pcts"
    using percentages_returns [of "map snd (Counter all_supplements)" "int num_queries"] by blast
  from create_supplement_chart_returns [OF ne this]
  obtain fig where "create_supplement_chart (Counter all_supplements) (int num_queries) = Inr fig"
    by blast
  then show ?thesis
    by (simp add: results_exn_def)
qed

lemma error_box_results_events:
  "ErrorBox unable_text \<in> set (results_events d all_supplements) \<longleftrightarrow> all_supplements = []"
  by (auto simp: results_events_def split: sum.splits)

lemma error_box_loop_events: "ErrorBox unable_text \<notin> set (loop_events d rs)"
proof -
  have ne: "ErrorBox unable_text \<noteq> fetch_error e" for e
    by (simp add: fetch_error_def unable_text_def u_def)
  have "ErrorBox unable_text \<notin> set (fetch_events d r)" for r
    by (auto simp: fetch_events_def ne split: sum.splits)
  then show ?thesis
    by (auto simp: loop_events_def)
qed

text \<open>
  C10. When the call to the language model raises, or parsing its response does,
  \<open>get_supplement_information\<close> returns the empty list. In a press of the button the chart is
  shown exactly when at least one supplement was collected over the 5 queries, and the error
  message exactly when none was; the count map is empty only when nothing was collected, so
  \<open>create_supplement_chart\<close>, which is called only when something was, never gets an empty map.
  The bound on the number of mentions keeps the percentages in the range of a float.
\<close>

theorem chart_iff_supplements_collected:
  fixes client :: api
  assumes "button inp" and "debug_mode s = Some d" and "metric_values inp = Inr (weight, height)"
    and "length (collected client (user_info inp weight height) s num_queries) < 2 ^ 1000"
  shows "(\<forall>s'. reply_failed (client (length (api_calls s')) (make_prompt (user_info inp weight height))) \<longrightarrow>
              fst (get_supplement_information client (user_info inp weight height) s') = []) \<and>
         fst (script_run client inp s) = None \<and>
         (charts (page (snd (script_run client inp s))) \<noteq> []) =
           (collected client (user_info inp weight height) s num_queries \<noteq> []) \<and>
         (ErrorBox unable_text \<in> set (page (snd (script_run client inp s)))) =
           (collected client (user_info inp weight height) s num_queries = []) \<and>
         (Counter (collected client (user_info inp weight height) s num_queries) = []) =
           (collected client (user_info inp weight height) s num_queries = [])"
proof -
  let ?all = "collected client (user_info inp weight height) s num_queries"
  have ok: "results_exn ?all = None"
    by (rule results_exn_None [OF assms(4)])
  have a: "\<forall>s'. reply_failed (client (length (api_calls s')) (make_prompt (user_info inp weight height))) \<longrightarrow>
              fst (get_supplement_information client (user_info inp weight height) s') = []"
    using get_supplement_information_reply_failed by blast
  have b: "fst (script_run client inp s) = None"
    unfolding script_run_pressed [OF assms(1,2,3) refl refl refl] using ok by simp
  have c: "(charts (page (snd (script_run client inp s))) \<noteq> []) = (?all \<noteq> [])"
    unfolding pressed_charts [OF assms(1,2,3)] charts_results_events
    using ok by (auto simp: results_exn_def split: sum.splits if_splits)
  have d: "(ErrorBox unable_text \<in> set (page (snd (script_run client inp s)))) = (?all = [])"
    unfolding script_run_pressed [OF assms(1,2,3) refl refl refl]
    using error_box_loop_events [of d] error_box_results_events [of d ?all]
    by (auto simp: title_text_def)
  show ?thesis
    using a b c d by (simp add: Counter_empty_iff)
qed

section \<open>Runs on example inputs\<close>

lemma upt_5: "[0..<5] = [0, 1, 2, 3, 4]"
  by (simp add: upt_rec)

lemma replies_zinc_twice:
  "replies zinc_twice info s num_queries = replicate 5 (Inr (ContentList [TextBlock (u ''Zinc, Zinc'')]))"
  by (simp add: replies_def zinc_twice_def num_queries_def upt_5 eval_nat_numeral)

lemma reply_supplements_zinc_twice:
  "reply_supplements (Inr (ContentList [TextBlock (u ''Zinc, Zinc'')])) = [u ''Zinc'', u ''Zinc'']"
  by (simp add: reply_supplements_def parse_supplement_list_def comma_items_def u_def py_strip_def
      isspace_def comma_def)

lemma collected_zinc_twice:
  "collected zinc_twice info s num_queries = replicate 10 (u ''Zinc'')"
  by (simp add: collected_def replies_zinc_twice reply_supplements_zinc_twice eval_nat_numeral)

lemma Counter_zinc: "Counter (replicate 10 (u ''Zinc'')) = [(u ''Zinc'', 10)]"
  by (simp add: Counter_def eval_nat_numeral)

lemma chart_zinc:
  "create_supplement_chart [(u ''Zinc'', 10)] 5 =
     Inr \<lparr>fig_x = [200],
          fig_y = [u ''Zinc''],
          fig_orientation = u ''h'',
          fig_text = [u ''200%''],
          fig_textposition = u ''inside'',
          fig_insidetextanchor = u ''end'',
          fig_textfont_color = u ''white'',
          fig_marker_color = u ''#1f77b4'',
          fig_xaxis_title = u ''Percentage of Queries (%)'',
          fig_yaxis_title = [],
          fig_xaxis_range = (0, 100),
          fig_xaxis_dtick = 20,
          fig_height = 420,
          fig_margin = (0, 10, 30, 0),
          fig_yaxis_autorange = u ''reversed''\<rparr>"
  by (simp add: create_supplement_chart_def percentage_of_five py_sorted_desc_def str_int_def u_def)

lemma default_metric:
  "metric_values (default_inputs\<lparr>button := True\<rparr>) = Inr (PyInt 70, PyInt 170)"
  by (simp add: metric_values_def default_inputs_def)

lemma default_user_info:
  "user_info (default_inputs\<lparr>button := True\<rparr>) (PyInt 70) (PyInt 170) =
     u ''Age: 30, Gender: Male, Weight: 70kg, Height: 170cm, Activity Level: Sedentary, Dietary Preference: Omnivore, Health Interests: ''"
  by (simp add: user_info_def default_inputs_def str_int_def u_def)

lemma lbs_200: "lbs_to_kg 200 = Inr (Finite 6382445096914125 (- 46))"
  by code_simp
lemma cm_6_0: "ft_in_to_cm 6 0 = Inr (Finite 6435221655047373 (- 45))"
  by code_simp
lemma t1: "tenths (Finite 6382445096914125 (- 46)) = 907"
  by code_simp
lemma t2: "tenths (Finite 6435221655047373 (- 45)) = 1829"
  by code_simp
lemma s1: "str_float1 (Finite 6382445096914125 (- 46)) = u ''90.7''"
  by (simp add: t1 u_def del: tenths.simps)
lemma s2: "str_float1 (Finite 6435221655047373 (- 45)) = u ''182.9''"
  by (simp add: t2 u_def del: tenths.simps)

lemma default_button: "button (default_inputs\<lparr>button := True\<rparr>)"
  by simp

lemma ready_debug: "debug_mode ready_state = Some False"
  by (simp add: ready_state_def)

lemma busy_debug: "debug_mode busy_state = Some True"
  by (simp add: busy_state_def)

lemma zinc_charts:
  assumes "debug_mode s = Some d"
  shows "charts (page (snd (script_run zinc_twice (default_inputs\<lparr>button := True\<rparr>) s))) =
     [\<lparr>fig_x = [200],
          fig_y = [u ''Zinc''],
          fig_orientation = u ''h'',
          fig_text = [u ''200%''],
          fig_textposition = u ''inside'',
          fig_insidetextanchor = u ''end'',
          fig_textfont_color = u ''white'',
          fig_marker_color = u ''#1f77b4'',
          fig_xaxis_title = u ''Percentage of Queries (%)'',
          fig_yaxis_title = [],
          fig_xaxis_range = (0, 100),
          fig_xaxis_dtick = 20,
          fig_height = 420,
          fig_margin = (0, 10, 30, 0),
          fig_yaxis_autorange = u ''reversed''\<rparr>]"
  unfolding pressed_charts [OF default_button assms default_metric] charts_results_events
    collected_zinc_twice Counter_zinc
  by (simp add: num_queries_def chart_zinc)

text \<open>
  C5 does not hold of the code. When every one of the 5 replies names the same supplement
  twice, it is counted 10 times, and its bar is \<open>round(10 / 5 * 100) = 200\<close> on an axis that
  ends at 100.
\<close>

theorem duplicate_mentions_chart:
  "collected zinc_twice (user_info (default_inputs\<lparr>button := True\<rparr>) (PyInt 70) (PyInt 170))
     ready_state num_queries = replicate 10 (u ''Zinc'') \<and>
   Counter (replicate 10 (u ''Zinc'')) = [(u ''Zinc'', 10)] \<and>
   (\<exists>fig. charts (page (snd (script_run zinc_twice (default_inputs\<lparr>button := True\<rparr>) ready_state))) = [fig] \<and>
          bars fig = [(u ''Zinc'', 200)] \<and>
          fig_text fig = [u ''200%''] \<and>
          fig_xaxis_range fig = (0, 100))"
  by (simp add: collected_zinc_twice Counter_zinc zinc_charts [OF ready_debug] bars_def)

theorem press_sends_five_queries_witness:
  "button (default_inputs\<lparr>button := True\<rparr>) \<and>
   debug_mode ready_state = Some False \<and>
   metric_values (default_inputs\<lparr>button := True\<rparr>) = Inr (PyInt 70, PyInt 170) \<and>
   api_calls (snd (script_run zinc_twice (default_inputs\<lparr>button := True\<rparr>) ready_state)) =
     replicate 5 (make_prompt (u ''Age: 30, Gender: Male, Weight: 70kg, Height: 170cm, Activity Level: Sedentary, Dietary Preference: Omnivore, Health Interests: ''))"
  using press_sends_five_queries [OF default_button ready_debug default_metric, of zinc_twice]
  by (simp add: default_metric ready_debug default_user_info) (simp add: ready_state_def)

theorem press_is_deterministic_witness:
  "button (default_inputs\<lparr>button := True\<rparr>) \<and>
   metric_values (default_inputs\<lparr>button := True\<rparr>) = Inr (PyInt 70, PyInt 170) \<and>
   debug_mode ready_state = Some False \<and> debug_mode busy_state = Some True \<and>
   replies zinc_twice (user_info (default_inputs\<lparr>button := True\<rparr>) (PyInt 70) (PyInt 170)) ready_state num_queries =
   replies zinc_twice (user_info (default_inputs\<lparr>button := True\<rparr>) (PyInt 70) (PyInt 170)) busy_state num_queries \<and>
   fst (script_run zinc_twice (default_inputs\<lparr>button := True\<rparr>) ready_state) =
   fst (script_run zinc_twice (default_inputs\<lparr>button := True\<rparr>) busy_state) \<and>
   charts (page (snd (script_run zinc_twice (default_inputs\<lparr>button := True\<rparr>) ready_state))) =
   charts (page (snd (script_run zinc_twice (default_inputs\<lparr>button := True\<rparr>) busy_state))) \<and>
   without_debug (page (snd (script_run zinc_twice (default_inputs\<lparr>button := True\<rparr>) ready_state))) =
   without_debug (page (snd (script_run zinc_twice (default_inputs\<lparr>button := True\<rparr>) busy_state)))"
proof -
  have same: "replies zinc_twice (user_info (default_inputs\<lparr>button := True\<rparr>) (PyInt 70) (PyInt 170)) ready_state num_queries =
   replies zinc_twice (user_info (default_inputs\<lparr>button := True\<rparr>) (PyInt 70) (PyInt 170)) busy_state num_queries"
    by (simp only: replies_zinc_twice)
  from press_is_deterministic [OF default_button default_metric ready_debug busy_debug same]
  show ?thesis
    using default_button default_metric ready_debug busy_debug same by blast
qed

lemma imperial_button: "button imperial_example"
  by (simp add: imperial_example_def)

lemma imperial_metric: "metric_values imperial_example = Inr (PyInt 70, PyInt 170)"
  by (simp add: metric_values_def imperial_example_def default_inputs_def)

lemma imperial_user_info:
  "user_info imperial_example (PyInt 70) (PyInt 170) =
     u ''Age: 30, Gender: Male, Weight: 70kg, Height: 170cm, Activity Level: Sedentary, Dietary Preference: Omnivore, Health Interests: ''"
  by (simp add: user_info_def imperial_example_def default_inputs_def str_int_def u_def)

lemma metric_tab_metric:
  "metric_values (imperial_example\<lparr>tab1_selected := False\<rparr>) =
     Inr (PyFloat (Finite 6382445096914125 (- 46)), PyFloat (Finite 6435221655047373 (- 45)))"
  by (simp add: metric_values_def imperial_example_def default_inputs_def lbs_200 cm_6_0)

lemma metric_tab_user_info:
  "user_info (imperial_example\<lparr>tab1_selected := False\<rparr>)
     (PyFloat (Finite 6382445096914125 (- 46))) (PyFloat (Finite 6435221655047373 (- 45))) =
     u ''Age: 30, Gender: Male, Weight: 90.7kg, Height: 182.9cm, Activity Level: Sedentary, Dietary Preference: Omnivore, Health Interests: ''"
  by (simp add: user_info_def imperial_example_def default_inputs_def str_int_def s1 s2 del: str_float1.simps)
     (simp add: u_def)

text \<open>
  C6 does not hold of the code. With the Imperial tab in use (\<open>tab1.selected\<close> true) the branch
  taken reads the fields of the Metric tab, so the profile carries their untouched starting
  values, 70 kg and 170 cm, and not the 200 lbs and 6 ft the user entered; the conversion to
  90.7 kg and 182.9 cm is made only when \<open>tab1.selected\<close> is false.
\<close>

theorem imperial_tab_profile:
  "tab1_selected imperial_example \<and>
   weight_lbs imperial_example = 200 \<and> height_ft imperial_example = 6 \<and> height_in imperial_example = 0 \<and>
   weight_kg imperial_example = 70 \<and> height_cm imperial_example = 170 \<and>
   api_calls (snd (script_run zinc_twice imperial_example ready_state)) =
     replicate 5 (make_prompt (u ''Age: 30, Gender: Male, Weight: 70kg, Height: 170cm, Activity Level: Sedentary, Dietary Preference: Omnivore, Health Interests: '')) \<and>
   api_calls (snd (script_run zinc_twice (imperial_example\<lparr>tab1_selected := False\<rparr>) ready_state)) =
     replicate 5 (make_prompt (u ''Age: 30, Gender: Male, Weight: 90.7kg, Height: 182.9cm, Activity Level: Sedentary, Dietary Preference: Omnivore, Health Interests: ''))"
proof -
  have b2: "button (imperial_example\<lparr>tab1_selected := False\<rparr>)"
    by (simp add: imperial_example_def)
  have c1: "api_calls (snd (script_run zinc_twice imperial_example ready_state)) =
     replicate 5 (make_prompt (u ''Age: 30, Gender: Male, Weight: 70kg, Height: 170cm, Activity Level: Sedentary, Dietary Preference: Omnivore, Health Interests: ''))"
    unfolding script_run_pressed [OF imperial_button ready_debug imperial_metric refl refl refl]
    by (simp add: imperial_user_info num_queries_def ready_state_def)
  have c2: "api_calls (snd (script_run zinc_twice (imperial_example\<lparr>tab1_selected := False\<rparr>) ready_state)) =
     replicate 5 (make_prompt (u ''Age: 30, Gender: Male, Weight: 90.7kg, Height: 182.9cm, Activity Level: Sedentary, Dietary Preference: Omnivore, Health Interests: ''))"
    unfolding script_run_pressed [OF b2 ready_debug metric_tab_metric refl refl refl]
    by (simp add: metric_tab_user_info num_queries_def ready_state_def)
  show ?thesis
    using c1 c2 by (simp add: imperial_example_def default_inputs_def)
qed

lemma replies_always_fails:
  "replies always_fails info s num_queries = replicate 5 (Inl (APIError (u ''Overloaded'')))"
  by (simp add: replies_def always_fails_def num_queries_def upt_5 eval_nat_numeral)

lemma collected_always_fails: "collected always_fails info s num_queries = []"
  by (simp add: collected_def replies_always_fails reply_supplements_def)

theorem chart_iff_supplements_collected_witness:
  "button (default_inputs\<lparr>button := True\<rparr>) \<and>
   debug_mode ready_state = Some False \<and>
   metric_values (default_inputs\<lparr>button := True\<rparr>) = Inr (PyInt 70, PyInt 170) \<and>
   length (collected zinc_twice (user_info (default_inputs\<lparr>button := True\<rparr>) (PyInt 70) (PyInt 170)) ready_state num_queries) < 2 ^ 1000 \<and>
   length (collected always_fails (user_info (default_inputs\<lparr>button := True\<rparr>) (PyInt 70) (PyInt 170)) ready_state num_queries) < 2 ^ 1000 \<and>
   reply_failed (always_fails 0 (make_prompt (user_info (default_inputs\<lparr>button := True\<rparr>) (PyInt 70) (PyInt 170)))) \<and>
   fst (get_supplement_information always_fails (user_info (default_inputs\<lparr>button := True\<rparr>) (PyInt 70) (PyInt 170)) ready_state) = [] \<and>
   fst (script_run zinc_twice (default_inputs\<lparr>button := True\<rparr>) ready_state) = None \<and>
   charts (page (snd (script_run zinc_twice (default_inputs\<lparr>button := True\<rparr>) ready_state))) \<noteq> [] \<and>
   ErrorBox unable_text \<notin> set (page (snd (script_run zinc_twice (default_inputs\<lparr>button := True\<rparr>) ready_state))) \<and>
   fst (script_run always_fails (default_inputs\<lparr>button := True\<rparr>) ready_state) = None \<and>
   charts (page (snd (script_run always_fails (default_inputs\<lparr>button := True\<rparr>) ready_state))) = [] \<and>
   ErrorBox unable_text \<in> set (page (snd (script_run always_fails (default_inputs\<lparr>button := True\<rparr>) ready_state)))"
proof -
  let ?inp = "default_inputs\<lparr>button := True\<rparr>"
  let ?info = "user_info ?inp (PyInt 70) (PyInt 170)"
  have z: "length (collected zinc_twice ?info ready_state num_queries) < 2 ^ 1000"
    by (simp add: collected_zinc_twice)
  have f: "length (collected always_fails ?info ready_state num_queries) < 2 ^ 1000"
    by (simp add: collected_always_fails)
  have rf: "reply_failed (always_fails 0 (make_prompt ?info))"
    by (simp add: reply_failed_def always_fails_def)
  have len0: "length (api_calls ready_state) = 0"
    by (simp add: ready_state_def)
  note tz = chart_iff_supplements_collected [OF default_button ready_debug default_metric z]
  note tf = chart_iff_supplements_collected [OF default_button ready_debug default_metric f]
  from tf have "reply_failed (always_fails (length (api_calls ready_state)) (make_prompt ?info)) \<longrightarrow>
      fst (get_supplement_information always_fails ?info ready_state) = []"
    by blast
  with rf len0 have g: "fst (get_supplement_information always_fails ?info ready_state) = []"
    by simp
  from tz have "fst (script_run zinc_twice ?inp ready_state) = None"
    and "charts (page (snd (script_run zinc_twice ?inp ready_state))) \<noteq> []"
    and "ErrorBox unable_text \<notin> set (page (snd (script_run zinc_twice ?inp ready_state)))"
    by (simp_all add: collected_zinc_twice)
  moreover from tf have "fst (script_run always_fails ?inp ready_state) = None"
    and "charts (page (snd (script_run always_fails ?inp ready_state))) = []"
    and "ErrorBox unable_text \<in> set (page (snd (script_run always_fails ?inp ready_state)))"
    by (simp_all add: collected_always_fails)
  ultimately show ?thesis
    using default_button ready_debug default_metric z f rf g by blast
qed

end
